theory Spec2Isabelle
  imports Main "HOL-Library.Sublist"
begin

section \<open>The file-extension classifier\<close>

text \<open>
  Modelled from the spec: the constants \<open>DTS_EXT\<close>, \<open>TS_EXT\<close> and \<open>TSX_EXT\<close> are imported
  from \<open>Shared/constants\<close>, which is not among the sources; they are the three extensions
  the classifier is described with.
\<close>

definition DTS_EXT :: string where
  "DTS_EXT = ''.d.ts''"

definition TS_EXT :: string where
  "TS_EXT = ''.ts''"

definition TSX_EXT :: string where
  "TSX_EXT = ''.tsx''"

text \<open>
  \<open>String.prototype.endsWith\<close> with no end position: the search string is compared with
  the last \<open>length searchString\<close> code units, and a search string longer than the
  subject never matches.
\<close>

definition endsWith :: "string \<Rightarrow> string \<Rightarrow> bool" where
  "endsWith s searchString =
     (if length s < length searchString then False
      else drop (length s - length searchString) s = searchString)"

definition isCompilableFile :: "string \<Rightarrow> bool" where
  "isCompilableFile fsPath =
     (if endsWith fsPath DTS_EXT then False
      else endsWith fsPath TS_EXT \<or> endsWith fsPath TSX_EXT)"

section \<open>The syntax trees and the checker, as far as \<open>MacroManager\<close> reads them\<close>

text \<open>
  A \<open>ts.Symbol\<close> is compared by object identity only (it is a key of a \<open>Map\<close>), so it
  is a number. Of a \<open>ts.Type\<close> only the field \<open>symbol\<close> is read.
\<close>

type_synonym Symbol = nat

datatype Type = Type (type_symbol: Symbol)

text \<open>
  The name of a binding or of a member: \<open>ts.isIdentifier\<close> holds of \<open>Identifier\<close> only;
  \<open>NonIdentifierName\<close> stands for binding patterns, string and numeric literal names and
  computed names.
\<close>

datatype Name = Identifier (identifier_text: string) | NonIdentifierName

datatype VariableDeclaration =
  VariableDeclaration (declaration_name: Name) (declaration_symbol: Symbol)

text \<open>
  Nodes the checker is asked about carry a node identity (first argument), so that two
  nodes with the same text are still two nodes. A function declaration has an optional
  name and its own declaration symbol.
\<close>

datatype Member =
    MethodSignature nat Name
  | ConstructSignatureDeclaration Symbol
  | OtherMember

datatype Statement =
    VariableStatement "VariableDeclaration list"
  | FunctionDeclaration nat "string option" Symbol
  | InterfaceDeclaration nat string "Member list"
  | OtherStatement

datatype Node = StatementNode Statement | MemberNode Member

text \<open>\<open>typeChecker.getTypeAtLocation\<close>.\<close>

type_synonym TypeChecker = "Node \<Rightarrow> Type"

datatype SourceFile = SourceFile (statements: "Statement list")

record Program =
  getSourceFileByPath :: "string \<Rightarrow> SourceFile option"

text \<open>The two library calls of the constructor: \<open>fs.pathExistsSync\<close> and \<open>path.join\<close>.\<close>

record Host =
  pathExistsSync :: "string \<Rightarrow> bool"
  join :: "string list \<Rightarrow> string"

text \<open>
  The four macro tables are imported from modules that are not among the sources; they
  are parameters, each in the order \<open>Object.entries\<close> lists it. The payloads are opaque.
\<close>

record ('i, 'c, 'n, 'p) MacroTables =
  IDENTIFIER_MACROS :: "(string \<times> 'i) list"
  CALL_MACROS :: "(string \<times> 'c) list"
  CONSTRUCTOR_MACROS :: "(string \<times> 'n) list"
  PROPERTY_CALL_MACROS :: "(string \<times> (string \<times> 'p) list) list"

text \<open>
  What construction can throw: a \<open>ProjectError\<close> with its message, or the
  \<open>TypeError\<close> of the runtime when \<open>.text\<close> is read from an absent name.
\<close>

datatype Error = ProjectError string | TypeError

section \<open>The Name Index\<close>

record InterfaceInfo =
  symbols :: "Symbol list"
  constructors :: "Symbol list"
  methods :: "string \<rightharpoonup> Symbol list"

record NameIndex =
  identifiers :: "string \<rightharpoonup> Symbol list"
  "functions" :: "string \<rightharpoonup> Symbol list"
  interfaces :: "string \<rightharpoonup> InterfaceInfo"

definition INCLUDE_FILES :: "string list" where
  "INCLUDE_FILES = [''roblox.d.ts'', ''es.d.ts'', ''macro_math.d.ts'']"

text \<open>
  \<open>getOrDefault\<close> returns the stored value, or stores and returns the default; the map
  is returned too, since the source updates it in place. Arrays and objects are never
  falsy, so \<open>!value\<close> holds exactly when the key is absent.
\<close>

definition getOrDefault :: "('k \<rightharpoonup> 'v) \<Rightarrow> 'k \<Rightarrow> 'v \<Rightarrow> 'v \<times> ('k \<rightharpoonup> 'v)" where
  "getOrDefault m key defaultValue =
     (case m key of
        None \<Rightarrow> (defaultValue, m(key \<mapsto> defaultValue))
      | Some v \<Rightarrow> (v, m))"

text \<open>
  \<open>getOrDefault(m, key, () => new Array()).push(s)\<close>: the array is shared with the map,
  so the push is an update of the entry.
\<close>

definition push_symbol :: "(string \<rightharpoonup> Symbol list) \<Rightarrow> string \<Rightarrow> Symbol \<Rightarrow> (string \<rightharpoonup> Symbol list)" where
  "push_symbol m key s = (case getOrDefault m key [] of (arr, m') \<Rightarrow> m'(key \<mapsto> arr @ [s]))"

fun scan_declarations ::
  "(string \<rightharpoonup> Symbol list) \<Rightarrow> VariableDeclaration list \<Rightarrow> (string \<rightharpoonup> Symbol list)" where
  "scan_declarations ids [] = ids"
| "scan_declarations ids (declaration # rest) =
     (case declaration_name declaration of
        Identifier identifierName \<Rightarrow>
          scan_declarations (push_symbol ids identifierName (declaration_symbol declaration)) rest
      | NonIdentifierName \<Rightarrow> scan_declarations ids rest)"

fun scan_members :: "TypeChecker \<Rightarrow> InterfaceInfo \<Rightarrow> Member list \<Rightarrow> InterfaceInfo" where
  "scan_members typeChecker interfaceInfo [] = interfaceInfo"
| "scan_members typeChecker interfaceInfo (MethodSignature i (Identifier methodName) # rest) =
     scan_members typeChecker
       (interfaceInfo\<lparr>methods :=
          push_symbol (methods interfaceInfo) methodName
            (type_symbol (typeChecker (MemberNode (MethodSignature i (Identifier methodName)))))\<rparr>)
       rest"
| "scan_members typeChecker interfaceInfo (MethodSignature i NonIdentifierName # rest) =
     scan_members typeChecker interfaceInfo rest"
| "scan_members typeChecker interfaceInfo (ConstructSignatureDeclaration s # rest) =
     scan_members typeChecker
       (interfaceInfo\<lparr>constructors := constructors interfaceInfo @ [s]\<rparr>) rest"
| "scan_members typeChecker interfaceInfo (OtherMember # rest) =
     scan_members typeChecker interfaceInfo rest"

definition new_InterfaceInfo :: InterfaceInfo where
  "new_InterfaceInfo = \<lparr>symbols = [], constructors = [], methods = Map.empty\<rparr>"

fun scan_statement :: "TypeChecker \<Rightarrow> NameIndex \<Rightarrow> Statement \<Rightarrow> Error + NameIndex" where
  "scan_statement typeChecker idx (VariableStatement declarations) =
     Inr (idx\<lparr>identifiers := scan_declarations (identifiers idx) declarations\<rparr>)"
| "scan_statement typeChecker idx (FunctionDeclaration i None s) = Inl TypeError"
| "scan_statement typeChecker idx (FunctionDeclaration i (Some name) s) =
     Inr (idx\<lparr>functions :=
            push_symbol (functions idx) name
              (type_symbol (typeChecker (StatementNode (FunctionDeclaration i (Some name) s))))\<rparr>)"
| "scan_statement typeChecker idx (InterfaceDeclaration i name members) =
     (case getOrDefault (interfaces idx) name new_InterfaceInfo of
        (interfaceInfo, interfaces') \<Rightarrow>
          Inr (idx\<lparr>interfaces := interfaces'(name \<mapsto>
                 scan_members typeChecker
                   (interfaceInfo\<lparr>symbols := symbols interfaceInfo @
                      [type_symbol (typeChecker (StatementNode (InterfaceDeclaration i name members)))]\<rparr>)
                   members)\<rparr>))"
| "scan_statement typeChecker idx OtherStatement = Inr idx"

fun scan_statements :: "TypeChecker \<Rightarrow> NameIndex \<Rightarrow> Statement list \<Rightarrow> Error + NameIndex" where
  "scan_statements typeChecker idx [] = Inr idx"
| "scan_statements typeChecker idx (statement # rest) =
     (case scan_statement typeChecker idx statement of
        Inl e \<Rightarrow> Inl e
      | Inr idx' \<Rightarrow> scan_statements typeChecker idx' rest)"

fun scan_files ::
  "Host \<Rightarrow> Program \<Rightarrow> TypeChecker \<Rightarrow> string \<Rightarrow> NameIndex \<Rightarrow> string list \<Rightarrow> Error + NameIndex" where
  "scan_files host program typeChecker typesPath idx [] = Inr idx"
| "scan_files host program typeChecker typesPath idx (fileName # rest) =
     (let filePath = join host [typesPath, fileName] in
      if \<not> pathExistsSync host filePath
      then Inl (ProjectError (''(MacroManager) Path does not exist '' @ filePath))
      else case getSourceFileByPath program filePath of
             None \<Rightarrow> Inl (ProjectError (''(MacroManager) Could not find source file for '' @ filePath))
           | Some sourceFile \<Rightarrow>
               (case scan_statements typeChecker idx (statements sourceFile) of
                  Inl e \<Rightarrow> Inl e
                | Inr idx' \<Rightarrow> scan_files host program typeChecker typesPath idx' rest))"

definition empty_index :: NameIndex where
  "empty_index = \<lparr>identifiers = Map.empty, functions = Map.empty, interfaces = Map.empty\<rparr>"

text \<open>Lines 43 to 101 of the constructor: the Declaration Scanner.\<close>

definition scan :: "Host \<Rightarrow> Program \<Rightarrow> TypeChecker \<Rightarrow> string \<Rightarrow> Error + NameIndex" where
  "scan host program typeChecker nodeModulesPath =
     scan_files host program typeChecker
       (join host [nodeModulesPath, ''@rbxts'', ''types'', ''include''])
       empty_index INCLUDE_FILES"

section \<open>The Macro Binder\<close>

text \<open>\<open>for (const symbol of symbols) macros.set(symbol, macro)\<close>.\<close>

fun set_all :: "(Symbol \<rightharpoonup> 'm) \<Rightarrow> Symbol list \<Rightarrow> 'm \<Rightarrow> (Symbol \<rightharpoonup> 'm)" where
  "set_all macros [] macro = macros"
| "set_all macros (symbol # rest) macro = set_all (macros(symbol \<mapsto> macro)) rest macro"

fun bind_identifiers ::
  "NameIndex \<Rightarrow> (Symbol \<rightharpoonup> 'i) \<Rightarrow> (string \<times> 'i) list \<Rightarrow> Error + (Symbol \<rightharpoonup> 'i)" where
  "bind_identifiers idx macros [] = Inr macros"
| "bind_identifiers idx macros ((identifierName, macro) # rest) =
     (case identifiers idx identifierName of
        None \<Rightarrow> Inl (ProjectError (''(MacroManager) No identifier found for '' @ identifierName))
      | Some identifierSymbols \<Rightarrow>
          bind_identifiers idx (set_all macros identifierSymbols macro) rest)"

fun bind_calls ::
  "NameIndex \<Rightarrow> (Symbol \<rightharpoonup> 'c) \<Rightarrow> (string \<times> 'c) list \<Rightarrow> Error + (Symbol \<rightharpoonup> 'c)" where
  "bind_calls idx macros [] = Inr macros"
| "bind_calls idx macros ((funcName, macro) # rest) =
     (case functions idx funcName of
        None \<Rightarrow> Inl (ProjectError (''(MacroManager) No function found for '' @ funcName))
      | Some functionSymbols \<Rightarrow>
          bind_calls idx (set_all macros functionSymbols macro) rest)"

fun bind_constructors ::
  "NameIndex \<Rightarrow> (Symbol \<rightharpoonup> 'n) \<Rightarrow> (string \<times> 'n) list \<Rightarrow> Error + (Symbol \<rightharpoonup> 'n)" where
  "bind_constructors idx macros [] = Inr macros"
| "bind_constructors idx macros ((className, macro) # rest) =
     (case interfaces idx className of
        None \<Rightarrow> Inl (ProjectError (''(MacroManager) No interface found for '' @ className))
      | Some interfaceInfo \<Rightarrow>
          bind_constructors idx (set_all macros (constructors interfaceInfo) macro) rest)"

fun bind_methods ::
  "string \<Rightarrow> InterfaceInfo \<Rightarrow> (Symbol \<rightharpoonup> 'p) \<Rightarrow> (string \<times> 'p) list \<Rightarrow> Error + (Symbol \<rightharpoonup> 'p)" where
  "bind_methods className interfaceInfo macros [] = Inr macros"
| "bind_methods className interfaceInfo macros ((methodName, macro) # rest) =
     (case methods interfaceInfo methodName of
        None \<Rightarrow>
          Inl (ProjectError (''(MacroManager) No method found for '' @ className @ ''.'' @ methodName))
      | Some methodSymbols \<Rightarrow>
          bind_methods className interfaceInfo (set_all macros methodSymbols macro) rest)"

fun bind_property_calls ::
  "NameIndex \<Rightarrow> (Symbol \<rightharpoonup> 'p) \<Rightarrow> (string \<times> (string \<times> 'p) list) list \<Rightarrow> Error + (Symbol \<rightharpoonup> 'p)" where
  "bind_property_calls idx macros [] = Inr macros"
| "bind_property_calls idx macros ((className, methodMacros) # rest) =
     (case interfaces idx className of
        None \<Rightarrow> Inl (ProjectError (''(MacroManager) No interface found for '' @ className))
      | Some interfaceInfo \<Rightarrow>
          (case bind_methods className interfaceInfo macros methodMacros of
             Inl e \<Rightarrow> Inl e
           | Inr macros' \<Rightarrow> bind_property_calls idx macros' rest))"

section \<open>The Macro Registry\<close>

record ('i, 'c, 'n, 'p) MacroManager =
  identifierMacros :: "Symbol \<rightharpoonup> 'i"
  callMacros :: "Symbol \<rightharpoonup> 'c"
  constructorMacros :: "Symbol \<rightharpoonup> 'n"
  propertyCallMacros :: "Symbol \<rightharpoonup> 'p"

text \<open>Lines 103 to 147 of the constructor: the four loops, in their order.\<close>

definition bind ::
  "NameIndex \<Rightarrow> ('i, 'c, 'n, 'p) MacroTables \<Rightarrow> Error + ('i, 'c, 'n, 'p) MacroManager" where
  "bind idx tables =
     (case bind_identifiers idx Map.empty (IDENTIFIER_MACROS tables) of
        Inl e \<Rightarrow> Inl e
      | Inr im \<Rightarrow>
     (case bind_calls idx Map.empty (CALL_MACROS tables) of
        Inl e \<Rightarrow> Inl e
      | Inr cm \<Rightarrow>
     (case bind_constructors idx Map.empty (CONSTRUCTOR_MACROS tables) of
        Inl e \<Rightarrow> Inl e
      | Inr nm \<Rightarrow>
     (case bind_property_calls idx Map.empty (PROPERTY_CALL_MACROS tables) of
        Inl e \<Rightarrow> Inl e
      | Inr pm \<Rightarrow>
          Inr \<lparr>identifierMacros = im, callMacros = cm,
               constructorMacros = nm, propertyCallMacros = pm\<rparr>))))"

text \<open>
  The constructor: a throw anywhere leaves no object, so the result is the error or the
  finished registry.
\<close>

definition new_MacroManager ::
  "Host \<Rightarrow> ('i, 'c, 'n, 'p) MacroTables \<Rightarrow> Program \<Rightarrow> TypeChecker \<Rightarrow> string
     \<Rightarrow> Error + ('i, 'c, 'n, 'p) MacroManager" where
  "new_MacroManager host tables program typeChecker nodeModulesPath =
     (case scan host program typeChecker nodeModulesPath of
        Inl e \<Rightarrow> Inl e
      | Inr idx \<Rightarrow> bind idx tables)"

text \<open>The accessors: \<open>Map.get\<close>, with \<open>None\<close> for \<open>undefined\<close>.\<close>

definition getIdentifierMacro :: "('i, 'c, 'n, 'p) MacroManager \<Rightarrow> Symbol \<Rightarrow> 'i option" where
  "getIdentifierMacro this symbol = identifierMacros this symbol"

definition getCallMacro :: "('i, 'c, 'n, 'p) MacroManager \<Rightarrow> Symbol \<Rightarrow> 'c option" where
  "getCallMacro this symbol = callMacros this symbol"

definition getConstructorMacro :: "('i, 'c, 'n, 'p) MacroManager \<Rightarrow> Symbol \<Rightarrow> 'n option" where
  "getConstructorMacro this symbol = constructorMacros this symbol"

definition getPropertyCallMacro :: "('i, 'c, 'n, 'p) MacroManager \<Rightarrow> Symbol \<Rightarrow> 'p option" where
  "getPropertyCallMacro this symbol = propertyCallMacros this symbol"

section \<open>Auxiliary definitions for the proofs\<close>

text \<open>
  The three flat loops of the binder and the inner loop over the methods have one shape:
  look the name up, fail with a message made from the name, or set every symbol found.
  \<open>bind_all\<close> is that shape; each loop is shown to be an instance of it.
\<close>

fun bind_all ::
  "(string \<Rightarrow> Symbol list option) \<Rightarrow> (string \<Rightarrow> string) \<Rightarrow> (Symbol \<rightharpoonup> 'm) \<Rightarrow> (string \<times> 'm) list
     \<Rightarrow> Error + (Symbol \<rightharpoonup> 'm)" where
  "bind_all lookup msg macros [] = Inr macros"
| "bind_all lookup msg macros ((name, macro) # rest) =
     (case lookup name of
        None \<Rightarrow> Inl (ProjectError (msg name))
      | Some syms \<Rightarrow> bind_all lookup msg (set_all macros syms macro) rest)"

text \<open>
  The Name Index only grows: a list stored under a name is extended at its end, never
  replaced. \<open>grows\<close>, \<open>info_grows\<close> and \<open>index_grows\<close> say so for a map of symbol lists,
  for an interface entry and for the whole index; \<open>recorded\<close> says that the index holds
  what the scanner takes from a statement.
\<close>

definition grows :: "(string \<rightharpoonup> Symbol list) \<Rightarrow> (string \<rightharpoonup> Symbol list) \<Rightarrow> bool" where
  "grows m m' = (\<forall>k l. m k = Some l \<longrightarrow> (\<exists>l'. m' k = Some (l @ l')))"

definition info_grows :: "InterfaceInfo \<Rightarrow> InterfaceInfo \<Rightarrow> bool" where
  "info_grows info info' =
     ((\<exists>l. symbols info' = symbols info @ l) \<and> (\<exists>l. constructors info' = constructors info @ l)
      \<and> grows (methods info) (methods info'))"

definition index_grows :: "NameIndex \<Rightarrow> NameIndex \<Rightarrow> bool" where
  "index_grows idx idx' =
     (grows (identifiers idx) (identifiers idx') \<and> grows (functions idx) (functions idx')
      \<and> (\<forall>c info. interfaces idx c = Some info \<longrightarrow>
            (\<exists>info'. interfaces idx' c = Some info' \<and> info_grows info info')))"

fun member_recorded :: "TypeChecker \<Rightarrow> InterfaceInfo \<Rightarrow> Member \<Rightarrow> bool" where
  "member_recorded typeChecker info (MethodSignature i (Identifier methodName)) =
     (\<exists>l. methods info methodName = Some l
        \<and> type_symbol (typeChecker (MemberNode (MethodSignature i (Identifier methodName)))) \<in> set l)"
| "member_recorded typeChecker info (ConstructSignatureDeclaration s) = (s \<in> set (constructors info))"
| "member_recorded typeChecker info m = True"

fun declaration_recorded :: "(string \<rightharpoonup> Symbol list) \<Rightarrow> VariableDeclaration \<Rightarrow> bool" where
  "declaration_recorded ids (VariableDeclaration (Identifier identifierName) s) =
     (\<exists>l. ids identifierName = Some l \<and> s \<in> set l)"
| "declaration_recorded ids d = True"

fun recorded :: "TypeChecker \<Rightarrow> NameIndex \<Rightarrow> Statement \<Rightarrow> bool" where
  "recorded typeChecker idx (VariableStatement declarations) =
     (\<forall>d \<in> set declarations. declaration_recorded (identifiers idx) d)"
| "recorded typeChecker idx (FunctionDeclaration i (Some name) s) =
     (\<exists>l. functions idx name = Some l
        \<and> type_symbol (typeChecker (StatementNode (FunctionDeclaration i (Some name) s))) \<in> set l)"
| "recorded typeChecker idx (InterfaceDeclaration i name members) =
     (\<exists>info. interfaces idx name = Some info
        \<and> type_symbol (typeChecker (StatementNode (InterfaceDeclaration i name members))) \<in> set (symbols info)
        \<and> (\<forall>m \<in> set members. member_recorded typeChecker info m))"
| "recorded typeChecker idx st = True"

section \<open>The unbound targets of the macro tables\<close>

text \<open>
  The messages of the table entries whose target the Name Index lacks, in the order in
  which the binder reaches the entries: the identifier table, the call table, the
  constructor table, then the property-call table, where an absent interface stands for
  all its methods. This list is written from the description of the binder, not from its
  code, and is compared with the code below.
\<close>

definition unbound_method_targets ::
  "NameIndex \<Rightarrow> (string \<times> (string \<times> 'p) list) list \<Rightarrow> string list" where
  "unbound_method_targets idx tbl =
     concat (map (\<lambda>(className, methodMacros).
        case interfaces idx className of
          None \<Rightarrow> [''(MacroManager) No interface found for '' @ className]
        | Some interfaceInfo \<Rightarrow>
            map (\<lambda>methodName. ''(MacroManager) No method found for '' @ className @ ''.'' @ methodName)
              (filter (\<lambda>methodName. methods interfaceInfo methodName = None) (map fst methodMacros)))
       tbl)"

definition unbound_targets :: "NameIndex \<Rightarrow> ('i, 'c, 'n, 'p) MacroTables \<Rightarrow> string list" where
  "unbound_targets idx tables =
     map (\<lambda>name. ''(MacroManager) No identifier found for '' @ name)
       (filter (\<lambda>name. identifiers idx name = None) (map fst (IDENTIFIER_MACROS tables)))
     @ map (\<lambda>name. ''(MacroManager) No function found for '' @ name)
       (filter (\<lambda>name. functions idx name = None) (map fst (CALL_MACROS tables)))
     @ map (\<lambda>name. ''(MacroManager) No interface found for '' @ name)
       (filter (\<lambda>name. interfaces idx name = None) (map fst (CONSTRUCTOR_MACROS tables)))
     @ unbound_method_targets idx (PROPERTY_CALL_MACROS tables)"

text \<open>
  The entries of a table, or of a part of it, are bound when each has its target in the
  index: the names of a flat table in the given map, the interfaces of a property-call
  table in the interface index and their methods in the method mapping of the interface.
\<close>

definition bound_in :: "(string \<Rightarrow> 'a option) \<Rightarrow> (string \<times> 'm) list \<Rightarrow> bool" where
  "bound_in lookup tbl = (\<forall>(name, macro) \<in> set tbl. lookup name \<noteq> None)"

definition methods_bound :: "NameIndex \<Rightarrow> (string \<times> (string \<times> 'p) list) list \<Rightarrow> bool" where
  "methods_bound idx tbl =
     (\<forall>(className, methodMacros) \<in> set tbl.
        case interfaces idx className of
          None \<Rightarrow> False
        | Some interfaceInfo \<Rightarrow> bound_in (methods interfaceInfo) methodMacros)"

text \<open>
  A statement is declared when it is a top-level statement of one of the declaration
  files, at the path the constructor computes for the file.
\<close>

definition declared :: "Host \<Rightarrow> Program \<Rightarrow> string \<Rightarrow> Statement \<Rightarrow> bool" where
  "declared host program nodeModulesPath st =
     (\<exists>fileName \<in> set INCLUDE_FILES.
        case getSourceFileByPath program
               (join host [join host [nodeModulesPath, ''@rbxts'', ''types'', ''include''], fileName]) of
          None \<Rightarrow> False
        | Some sourceFile \<Rightarrow> st \<in> set (statements sourceFile))"

text \<open>
  The declaration files are loadable when each of them exists and the program has a
  parsed file for it: then the scanner throws none of its two errors about files.
\<close>

definition loadable :: "Host \<Rightarrow> Program \<Rightarrow> string \<Rightarrow> bool" where
  "loadable host program nodeModulesPath =
     (\<forall>fileName \<in> set INCLUDE_FILES.
        pathExistsSync host
          (join host [join host [nodeModulesPath, ''@rbxts'', ''types'', ''include''], fileName])
        \<and> getSourceFileByPath program
          (join host [join host [nodeModulesPath, ''@rbxts'', ''types'', ''include''], fileName])
            \<noteq> None)"

text \<open>
  A resolved symbol is the compiler's identity of one declared name: the lists that the
  Name Index holds for two different names have no symbol in common. \<open>unshared\<close> says so
  of the lists of the given keys. For the property-call table the keys are the pairs of
  an interface name and a method name, and the list of a pair is the method list in the
  entry of the interface.
\<close>

definition unshared :: "('k \<Rightarrow> Symbol list option) \<Rightarrow> 'k list \<Rightarrow> bool" where
  "unshared lookup keys =
     (\<forall>k \<in> set keys. \<forall>k' \<in> set keys. k \<noteq> k' \<longrightarrow>
        (case lookup k of
           None \<Rightarrow> True
         | Some syms \<Rightarrow>
             (case lookup k' of None \<Rightarrow> True | Some syms' \<Rightarrow> set syms \<inter> set syms' = {})))"

definition property_call_keys :: "(string \<times> (string \<times> 'p) list) list \<Rightarrow> (string \<times> string) list" where
  "property_call_keys tbl =
     concat (map (\<lambda>(className, methodMacros).
       map (\<lambda>(methodName, macro). (className, methodName)) methodMacros) tbl)"

definition method_list :: "NameIndex \<Rightarrow> string \<times> string \<Rightarrow> Symbol list option" where
  "method_list idx key =
     (case interfaces idx (fst key) of
        None \<Rightarrow> None
      | Some interfaceInfo \<Rightarrow> methods interfaceInfo (snd key))"

text \<open>The list of an interface name is the constructor list in its entry.\<close>

definition constructor_list :: "NameIndex \<Rightarrow> string \<Rightarrow> Symbol list option" where
  "constructor_list idx name = map_option constructors (interfaces idx name)"

section \<open>A host, a program and a checker for the examples\<close>

text \<open>
  Every path exists; \<open>join\<close> puts a slash between the parts. The program holds the given
  statements in \<open>roblox.d.ts\<close> and in \<open>es.d.ts\<close>, and an empty third file.
\<close>

definition example_host :: Host where
  "example_host =
     \<lparr>pathExistsSync = (\<lambda>p. True),
      join = (\<lambda>parts. foldr (\<lambda>p acc. if acc = [] then p else p @ ''/'' @ acc) parts [])\<rparr>"

definition example_program :: "Statement list \<Rightarrow> Statement list \<Rightarrow> Program" where
  "example_program roblox es =
     \<lparr>getSourceFileByPath = (\<lambda>p.
        if p = ''node_modules/@rbxts/types/include/roblox.d.ts'' then Some (SourceFile roblox)
        else if p = ''node_modules/@rbxts/types/include/es.d.ts'' then Some (SourceFile es)
        else if p = ''node_modules/@rbxts/types/include/macro_math.d.ts'' then Some (SourceFile [])
        else None)\<rparr>"

text \<open>A checker that gives every node it is asked about a symbol of its own.\<close>

fun example_checker :: TypeChecker where
  "example_checker (StatementNode (FunctionDeclaration i name s)) = Type (100 + i)"
| "example_checker (StatementNode (InterfaceDeclaration i name members)) = Type (200 + i)"
| "example_checker (MemberNode (MethodSignature i name)) = Type (300 + i)"
| "example_checker node = Type 0"

definition no_macros :: "(nat, nat, nat, nat) MacroTables" where
  "no_macros =
     \<lparr>IDENTIFIER_MACROS = [], CALL_MACROS = [], CONSTRUCTOR_MACROS = [],
      PROPERTY_CALL_MACROS = []\<rparr>"

text \<open>Two identifier macros, \<open>x\<close> and \<open>y\<close>, for declaration files that declare nothing.\<close>

definition two_unbound :: "(nat, nat, nat, nat) MacroTables" where
  "two_unbound = no_macros\<lparr>IDENTIFIER_MACROS := [(''x'', 1), (''y'', 2)]\<rparr>"

text \<open>
  A function \<open>f\<close> with two overload signatures and a call macro for it; the same with
  another function \<open>g\<close> and a call macro for each of the two.
\<close>

definition overloads :: "Statement list" where
  "overloads = [FunctionDeclaration 1 (Some ''f'') 50, FunctionDeclaration 2 (Some ''f'') 50]"

definition overloads_macros :: "(nat, nat, nat, nat) MacroTables" where
  "overloads_macros = no_macros\<lparr>CALL_MACROS := [(''f'', 9)]\<rparr>"

definition two_functions :: "Statement list" where
  "two_functions =
     [FunctionDeclaration 1 (Some ''f'') 50, FunctionDeclaration 2 (Some ''f'') 50,
      FunctionDeclaration 3 (Some ''g'') 51]"

definition two_functions_macros :: "(nat, nat, nat, nat) MacroTables" where
  "two_functions_macros = no_macros\<lparr>CALL_MACROS := [(''f'', 9), (''g'', 8)]\<rparr>"

text \<open>
  An interface \<open>Vector\<close> declared in two files, each declaration with a construct
  signature, and a constructor macro for it.
\<close>

definition merged_vector :: "Statement list \<times> Statement list" where
  "merged_vector =
     ([InterfaceDeclaration 1 ''Vector'' [ConstructSignatureDeclaration 21]],
      [InterfaceDeclaration 2 ''Vector'' [ConstructSignatureDeclaration 22]])"

definition vector_macros :: "(nat, nat, nat, nat) MacroTables" where
  "vector_macros = no_macros\<lparr>CONSTRUCTOR_MACROS := [(''Vector'', 5)]\<rparr>"

text \<open>
  The interface \<open>Array\<close> declared in two files: with a method \<open>push\<close> in each
  (\<open>merged_push\<close>), or with \<open>push\<close> in the first and \<open>pop\<close> in the second (\<open>push_pop\<close>);
  and a property-call macro for \<open>push\<close> alone.
\<close>

definition merged_push :: "Statement list \<times> Statement list" where
  "merged_push =
     ([InterfaceDeclaration 1 ''Array'' [MethodSignature 11 (Identifier ''push'')]],
      [InterfaceDeclaration 2 ''Array'' [MethodSignature 12 (Identifier ''push'')]])"

definition push_pop :: "Statement list \<times> Statement list" where
  "push_pop =
     ([InterfaceDeclaration 1 ''Array'' [MethodSignature 11 (Identifier ''push'')]],
      [InterfaceDeclaration 2 ''Array'' [MethodSignature 12 (Identifier ''pop'')]])"

definition push_macros :: "(nat, nat, nat, nat) MacroTables" where
  "push_macros = no_macros\<lparr>PROPERTY_CALL_MACROS := [(''Array'', [(''push'', 1)])]\<rparr>"

text \<open>A declaration file with a function declaration that has no name.\<close>

definition unnamed_function :: "Statement list" where
  "unnamed_function = [OtherStatement, FunctionDeclaration 1 None 50]"

section \<open>Properties of the file-extension classifier\<close>

lemma endsWith_suffix: "endsWith s t \<longleftrightarrow> suffix t s"
proof
  assume "endsWith s t"
  then have d: "drop (length s - length t) s = t"
    by (auto simp: endsWith_def split: if_splits)
  have "s = take (length s - length t) s @ drop (length s - length t) s" by simp
  with d have "s = take (length s - length t) s @ t" by simp
  then show "suffix t s" by (rule suffixI)
next
  assume "suffix t s"
  then obtain p where "s = p @ t" by (auto simp: suffix_def)
  then show "endsWith s t" by (simp add: endsWith_def)
qed

section \<open>The loops of the binder\<close>

lemma bind_identifiers_bind_all:
  "bind_identifiers idx macros tbl =
     bind_all (identifiers idx) (\<lambda>n. ''(MacroManager) No identifier found for '' @ n) macros tbl"
  by (induction tbl arbitrary: macros) (auto split: option.splits)

lemma bind_calls_bind_all:
  "bind_calls idx macros tbl =
     bind_all (functions idx) (\<lambda>n. ''(MacroManager) No function found for '' @ n) macros tbl"
  by (induction tbl arbitrary: macros) (auto split: option.splits)

lemma bind_constructors_bind_all:
  "bind_constructors idx macros tbl =
     bind_all (\<lambda>n. map_option constructors (interfaces idx n))
       (\<lambda>n. ''(MacroManager) No interface found for '' @ n) macros tbl"
  by (induction tbl arbitrary: macros) (auto split: option.splits)

lemma bind_methods_bind_all:
  "bind_methods className info macros tbl =
     bind_all (methods info)
       (\<lambda>n. ''(MacroManager) No method found for '' @ className @ ''.'' @ n) macros tbl"
  by (induction tbl arbitrary: macros) (auto split: option.splits)

lemma set_all_apply: "set_all macros syms macro s = (if s \<in> set syms then Some macro else macros s)"
  by (induction syms arbitrary: macros) auto

lemma bind_all_frame:
  assumes "bind_all lookup msg macros tbl = Inr macros'"
    and "\<And>n P l. (n, P) \<in> set tbl \<Longrightarrow> lookup n = Some l \<Longrightarrow> s \<notin> set l"
  shows "macros' s = macros s"
  using assms
proof (induction tbl arbitrary: macros)
  case Nil
  then show ?case by simp
next
  case (Cons a tbl)
  obtain n P where a: "a = (n, P)" by (cases a)
  from Cons.prems(1) a obtain l where l: "lookup n = Some l"
    and rest: "bind_all lookup msg (set_all macros l P) tbl = Inr macros'"
    by (auto split: option.splits)
  have "s \<notin> set l" using Cons.prems(2) [of n P l] a l by simp
  moreover have "macros' s = set_all macros l P s"
    using rest Cons.prems(2) by (intro Cons.IH) auto
  ultimately show ?case by (simp add: set_all_apply)
qed

lemma bind_all_bound:
  assumes "bind_all lookup msg macros tbl = Inr macros'"
    and "(n, P) \<in> set tbl" and "lookup n = Some l" and "s \<in> set l"
    and "\<And>n' P' l'. (n', P') \<in> set tbl \<Longrightarrow> lookup n' = Some l' \<Longrightarrow> s \<in> set l' \<Longrightarrow> P' = P"
  shows "macros' s = Some P"
  using assms
proof (induction tbl arbitrary: macros n l)
  case Nil
  then show ?case by simp
next
  case (Cons a tbl)
  obtain n0 P0 where a: "a = (n0, P0)" by (cases a)
  from Cons.prems(1) a obtain l0 where l0: "lookup n0 = Some l0"
    and rest: "bind_all lookup msg (set_all macros l0 P0) tbl = Inr macros'"
    by (auto split: option.splits)
  show ?case
  proof (cases "\<exists>n' P' l'. (n', P') \<in> set tbl \<and> lookup n' = Some l' \<and> s \<in> set l'")
    case True
    then obtain n' P' l' where e: "(n', P') \<in> set tbl" "lookup n' = Some l'" "s \<in> set l'"
      by blast
    then have "P' = P" using Cons.prems(5) [of n' P' l'] by simp
    with e have "(n', P) \<in> set tbl" by simp
    then show ?thesis
      using rest e Cons.prems(5) by (intro Cons.IH [of _ n' l']) auto
  next
    case False
    then have "macros' s = set_all macros l0 P0 s"
      using rest by (intro bind_all_frame [OF rest]) blast
    moreover have "(n, P) = (n0, P0)"
      using False Cons.prems(2,3,4) a by auto
    ultimately show ?thesis using l0 Cons.prems(3,4) by (simp add: set_all_apply)
  qed
qed

lemma bind_all_keeps:
  assumes "bind_all lookup msg macros tbl = Inr macros'" and "macros s \<noteq> None"
  shows "macros' s \<noteq> None"
  using assms
  by (induction tbl arbitrary: macros) (auto split: option.splits simp: set_all_apply)

lemma bind_all_recorded:
  assumes "bind_all lookup msg macros tbl = Inr macros'"
    and "(n, P) \<in> set tbl" and "lookup n = Some l" and "s \<in> set l"
  shows "macros' s \<noteq> None"
  using assms
proof (induction tbl arbitrary: macros)
  case Nil
  then show ?case by simp
next
  case (Cons a tbl)
  obtain n0 P0 where a: "a = (n0, P0)" by (cases a)
  from Cons.prems(1) a obtain l0 where l0: "lookup n0 = Some l0"
    and rest: "bind_all lookup msg (set_all macros l0 P0) tbl = Inr macros'"
    by (auto split: option.splits)
  show ?case
  proof (cases "(n, P) \<in> set tbl")
    case True
    then show ?thesis using rest Cons.prems(3,4) by (intro Cons.IH [of _ ]) auto
  next
    case False
    then have "(n, P) = (n0, P0)" using Cons.prems(2) a by simp
    then have "set_all macros l0 P0 s \<noteq> None"
      using l0 Cons.prems(3,4) by (simp add: set_all_apply)
    with rest show ?thesis by (rule bind_all_keeps)
  qed
qed

lemma bind_all_missing:
  assumes "filter (\<lambda>n. lookup n = None) (map fst tbl) = n # ns"
  shows "bind_all lookup msg macros tbl = Inl (ProjectError (msg n))"
  using assms
  by (induction tbl arbitrary: macros) (auto split: option.splits if_splits)

lemma bind_all_present:
  assumes "filter (\<lambda>n. lookup n = None) (map fst tbl) = []"
  shows "\<exists>macros'. bind_all lookup msg macros tbl = Inr macros'"
  using assms
  by (induction tbl arbitrary: macros) (auto split: option.splits if_splits)

lemma bind_all_Inr_present:
  assumes "bind_all lookup msg macros tbl = Inr macros'" and "(n, P) \<in> set tbl"
  shows "lookup n \<noteq> None"
  using assms
  by (induction tbl arbitrary: macros) (auto split: option.splits if_splits)

lemma bind_property_calls_frame:
  assumes "bind_property_calls idx macros tbl = Inr macros'"
    and "\<And>c ms info mn P l. (c, ms) \<in> set tbl \<Longrightarrow> interfaces idx c = Some info \<Longrightarrow>
           (mn, P) \<in> set ms \<Longrightarrow> methods info mn = Some l \<Longrightarrow> s \<notin> set l"
  shows "macros' s = macros s"
  using assms
proof (induction tbl arbitrary: macros)
  case Nil
  then show ?case by simp
next
  case (Cons a tbl)
  obtain c ms where a: "a = (c, ms)" by (cases a)
  from Cons.prems(1) a obtain info mid where info: "interfaces idx c = Some info"
    and inner: "bind_methods c info macros ms = Inr mid"
    and rest: "bind_property_calls idx mid tbl = Inr macros'"
    by (auto split: option.splits sum.splits)
  have "s \<notin> set l" if "(mn, P) \<in> set ms" "methods info mn = Some l" for mn P l
    using Cons.prems(2) [of c ms info mn P l] a info that by simp
  with inner have "mid s = macros s"
    unfolding bind_methods_bind_all by (rule bind_all_frame)
  moreover have "s \<notin> set l" if "(c', ms') \<in> set tbl" "interfaces idx c' = Some info'"
    "(mn, P) \<in> set ms'" "methods info' mn = Some l" for c' ms' info' mn P l
    using Cons.prems(2) [of c' ms' info' mn P l] that by simp
  with rest have "macros' s = mid s" by (rule Cons.IH)
  ultimately show ?case by simp
qed

lemma bind_property_calls_keeps:
  assumes "bind_property_calls idx macros tbl = Inr macros'" and "macros s \<noteq> None"
  shows "macros' s \<noteq> None"
  using assms
proof (induction tbl arbitrary: macros)
  case Nil
  then show ?case by simp
next
  case (Cons a tbl)
  obtain c ms where a: "a = (c, ms)" by (cases a)
  from Cons.prems(1) a obtain info mid where info: "interfaces idx c = Some info"
    and inner: "bind_methods c info macros ms = Inr mid"
    and rest: "bind_property_calls idx mid tbl = Inr macros'"
    by (auto split: option.splits sum.splits)
  have "mid s \<noteq> None"
    using inner Cons.prems(2) unfolding bind_methods_bind_all by (rule bind_all_keeps)
  with rest show ?case by (rule Cons.IH)
qed

lemma bind_property_calls_recorded:
  assumes "bind_property_calls idx macros tbl = Inr macros'"
    and "(c, ms) \<in> set tbl" and "interfaces idx c = Some info"
    and "(mn, P) \<in> set ms" and "methods info mn = Some l" and "s \<in> set l"
  shows "macros' s \<noteq> None"
  using assms
proof (induction tbl arbitrary: macros)
  case Nil
  then show ?case by simp
next
  case (Cons a tbl)
  obtain c0 ms0 where a: "a = (c0, ms0)" by (cases a)
  from Cons.prems(1) a obtain info0 mid where info0: "interfaces idx c0 = Some info0"
    and inner: "bind_methods c0 info0 macros ms0 = Inr mid"
    and rest: "bind_property_calls idx mid tbl = Inr macros'"
    by (auto split: option.splits sum.splits)
  show ?case
  proof (cases "(c, ms) \<in> set tbl")
    case True
    from rest True Cons.prems(3-6) show ?thesis by (rule Cons.IH)
  next
    case False
    then have eq: "c0 = c" "ms0 = ms" using Cons.prems(2) a by auto
    with info0 Cons.prems(3) have "info0 = info" by simp
    with inner eq have "bind_all (methods info)
       (\<lambda>n. ''(MacroManager) No method found for '' @ c @ ''.'' @ n) macros ms = Inr mid"
      by (simp add: bind_methods_bind_all)
    then have "mid s \<noteq> None"
      using Cons.prems(4-6) by (rule bind_all_recorded)
    with rest show ?thesis by (rule bind_property_calls_keeps)
  qed
qed

lemma bind_property_calls_bound:
  assumes "bind_property_calls idx macros tbl = Inr macros'"
    and "(c, ms) \<in> set tbl" and "interfaces idx c = Some info"
    and "(mn, P) \<in> set ms" and "methods info mn = Some l" and "s \<in> set l"
    and "\<And>c' ms' info' mn' P' l'. (c', ms') \<in> set tbl \<Longrightarrow> interfaces idx c' = Some info' \<Longrightarrow>
           (mn', P') \<in> set ms' \<Longrightarrow> methods info' mn' = Some l' \<Longrightarrow> s \<in> set l' \<Longrightarrow> P' = P"
  shows "macros' s = Some P"
  using assms
proof (induction tbl arbitrary: macros c ms info mn l)
  case Nil
  then show ?case by simp
next
  case (Cons a tbl)
  obtain c0 ms0 where a: "a = (c0, ms0)" by (cases a)
  from Cons.prems(1) a obtain info0 mid where info0: "interfaces idx c0 = Some info0"
    and inner: "bind_methods c0 info0 macros ms0 = Inr mid"
    and rest: "bind_property_calls idx mid tbl = Inr macros'"
    by (auto split: option.splits sum.splits)
  have same: "P' = P" if "(c', ms') \<in> set tbl" "interfaces idx c' = Some info'"
    "(mn', P') \<in> set ms'" "methods info' mn' = Some l'" "s \<in> set l'" for c' ms' info' mn' P' l'
    using Cons.prems(7) [of c' ms' info' mn' P' l'] that by simp
  show ?case
  proof (cases "\<exists>c' ms' info' mn' P' l'. (c', ms') \<in> set tbl \<and> interfaces idx c' = Some info' \<and>
           (mn', P') \<in> set ms' \<and> methods info' mn' = Some l' \<and> s \<in> set l'")
    case True
    then obtain c' ms' info' mn' P' l' where e: "(c', ms') \<in> set tbl"
      "interfaces idx c' = Some info'" "(mn', P') \<in> set ms'" "methods info' mn' = Some l'"
      "s \<in> set l'"
      by blast
    then have "P' = P" by (rule same)
    with e have e3: "(mn', P) \<in> set ms'" by simp
    from rest e(1,2) e3 e(4,5) same show ?thesis by (rule Cons.IH)
  next
    case False
    then have "s \<notin> set l'" if "(c', ms') \<in> set tbl" "interfaces idx c' = Some info'"
      "(mn', P') \<in> set ms'" "methods info' mn' = Some l'" for c' ms' info' mn' P' l'
      using that by blast
    with rest have "macros' s = mid s" by (rule bind_property_calls_frame)
    moreover have "(c, ms) \<notin> set tbl"
      using False Cons.prems(3-6) by blast
    then have eq: "c0 = c" "ms0 = ms"
      using Cons.prems(2) a by auto
    with info0 Cons.prems(3) have "info0 = info" by simp
    with inner eq have inner': "bind_all (methods info)
       (\<lambda>n. ''(MacroManager) No method found for '' @ c @ ''.'' @ n) macros ms = Inr mid"
      by (simp add: bind_methods_bind_all)
    have "P' = P" if "(mn', P') \<in> set ms" "methods info mn' = Some l'" "s \<in> set l'" for mn' P' l'
      using Cons.prems(7) [of c ms info mn' P' l'] Cons.prems(2,3) that by simp
    with inner' Cons.prems(4-6) have "mid s = Some P" by (rule bind_all_bound)
    ultimately show ?thesis by simp
  qed
qed

lemma bind_property_calls_Inr_present:
  assumes "bind_property_calls idx macros tbl = Inr macros'" and "(c, ms) \<in> set tbl"
  shows "\<exists>info. interfaces idx c = Some info \<and> (\<forall>mn P. (mn, P) \<in> set ms \<longrightarrow> methods info mn \<noteq> None)"
  using assms
proof (induction tbl arbitrary: macros)
  case Nil
  then show ?case by simp
next
  case (Cons a tbl)
  obtain c0 ms0 where a: "a = (c0, ms0)" by (cases a)
  from Cons.prems(1) a obtain info0 mid where info0: "interfaces idx c0 = Some info0"
    and inner: "bind_methods c0 info0 macros ms0 = Inr mid"
    and rest: "bind_property_calls idx mid tbl = Inr macros'"
    by (auto split: option.splits sum.splits)
  show ?case
  proof (cases "(c, ms) \<in> set tbl")
    case True
    with rest show ?thesis by (rule Cons.IH)
  next
    case False
    then have eq: "c0 = c" "ms0 = ms" using Cons.prems(2) a by auto
    with inner have inner': "bind_all (methods info0)
       (\<lambda>n. ''(MacroManager) No method found for '' @ c @ ''.'' @ n) macros ms = Inr mid"
      by (simp add: bind_methods_bind_all)
    have "methods info0 mn \<noteq> None" if "(mn, P) \<in> set ms" for mn P
      using inner' that by (rule bind_all_Inr_present)
    with info0 eq show ?thesis by blast
  qed
qed

section \<open>The Declaration Scanner only adds to the Name Index\<close>

lemma push_symbol_same:
  "push_symbol m k s k = Some ((case m k of None \<Rightarrow> [] | Some l \<Rightarrow> l) @ [s])"
  by (simp add: push_symbol_def getOrDefault_def split: option.splits)

lemma push_symbol_other: "k' \<noteq> k \<Longrightarrow> push_symbol m k s k' = m k'"
  by (simp add: push_symbol_def getOrDefault_def split: option.splits)

lemma grows_refl: "grows m m"
  by (simp add: grows_def)

lemma grows_trans: "grows m m' \<Longrightarrow> grows m' m'' \<Longrightarrow> grows m m''"
  unfolding grows_def by (metis append.assoc)

lemma grows_push_symbol: "grows m (push_symbol m k s)"
  unfolding grows_def
proof (intro allI impI)
  fix k' l assume "m k' = Some l"
  then show "\<exists>l'. push_symbol m k s k' = Some (l @ l')"
    by (cases "k' = k") (simp_all add: push_symbol_same push_symbol_other)
qed

lemma grows_mono: "grows m m' \<Longrightarrow> m k = Some l \<Longrightarrow> s \<in> set l \<Longrightarrow> \<exists>l'. m' k = Some l' \<and> s \<in> set l'"
  unfolding grows_def by fastforce

lemma info_grows_refl: "info_grows info info"
  by (simp add: info_grows_def grows_refl)

lemma info_grows_trans: "info_grows a b \<Longrightarrow> info_grows b c \<Longrightarrow> info_grows a c"
  unfolding info_grows_def by (metis append.assoc grows_trans)

lemma index_grows_refl: "index_grows idx idx"
  by (simp add: index_grows_def grows_refl info_grows_refl)

lemma index_grows_trans: "index_grows a b \<Longrightarrow> index_grows b c \<Longrightarrow> index_grows a c"
  unfolding index_grows_def by (meson grows_trans info_grows_trans)

lemma scan_declarations_grows: "grows ids (scan_declarations ids ds)"
proof (induction ds arbitrary: ids)
  case Nil
  then show ?case by (simp add: grows_refl)
next
  case (Cons d ds)
  show ?case
  proof (cases "declaration_name d")
    case (Identifier n)
    then show ?thesis
      using grows_trans [OF grows_push_symbol Cons.IH] by simp
  next
    case NonIdentifierName
    then show ?thesis using Cons.IH by simp
  qed
qed

lemma declaration_recorded_mono:
  "grows ids ids' \<Longrightarrow> declaration_recorded ids d \<Longrightarrow> declaration_recorded ids' d"
  by (cases "(ids, d)" rule: declaration_recorded.cases) (auto dest: grows_mono)

lemma scan_declarations_recorded:
  "d \<in> set ds \<Longrightarrow> declaration_recorded (scan_declarations ids ds) d"
proof (induction ds arbitrary: ids)
  case Nil
  then show ?case by simp
next
  case (Cons a ds)
  show ?case
  proof (cases "d \<in> set ds")
    case True
    then show ?thesis using Cons.IH by (cases "declaration_name a") simp_all
  next
    case False
    then have da: "d = a" using Cons.prems by simp
    show ?thesis
    proof (cases a)
      case (VariableDeclaration nm s)
      show ?thesis
      proof (cases nm)
        case (Identifier n)
        have "declaration_recorded (push_symbol ids n s) a"
          using VariableDeclaration Identifier by (simp add: push_symbol_same)
        with scan_declarations_grows
        have "declaration_recorded (scan_declarations (push_symbol ids n s) ds) a"
          by (rule declaration_recorded_mono)
        then show ?thesis
          using VariableDeclaration Identifier da by simp
      next
        case NonIdentifierName
        then show ?thesis using VariableDeclaration da by simp
      qed
    qed
  qed
qed

lemma scan_members_grows: "info_grows info (scan_members tc info ms)"
proof (induction tc info ms rule: scan_members.induct)
  case (1 tc info)
  then show ?case by (simp add: info_grows_refl)
next
  case (2 tc info i mn rest)
  have "info_grows info (info\<lparr>methods := push_symbol (methods info) mn
          (type_symbol (tc (MemberNode (MethodSignature i (Identifier mn)))))\<rparr>)"
    by (simp add: info_grows_def grows_push_symbol)
  then show ?case using 2 info_grows_trans by simp
next
  case (3 tc info i rest)
  then show ?case by simp
next
  case (4 tc info s rest)
  have "info_grows info (info\<lparr>constructors := constructors info @ [s]\<rparr>)"
    by (simp add: info_grows_def grows_refl)
  then show ?case using 4 info_grows_trans by simp
next
  case (5 tc info rest)
  then show ?case by simp
qed

lemma member_recorded_mono:
  "info_grows info info' \<Longrightarrow> member_recorded tc info m \<Longrightarrow> member_recorded tc info' m"
  by (cases "(tc, info, m)" rule: member_recorded.cases)
     (auto simp: info_grows_def dest: grows_mono)

lemma scan_members_recorded:
  "m \<in> set ms \<Longrightarrow> member_recorded tc (scan_members tc info ms) m"
proof (induction tc info ms rule: scan_members.induct)
  case (1 tc info)
  then show ?case by simp
next
  case (2 tc info i mn rest)
  let ?info = "info\<lparr>methods := push_symbol (methods info) mn
          (type_symbol (tc (MemberNode (MethodSignature i (Identifier mn)))))\<rparr>"
  show ?case
  proof (cases "m \<in> set rest")
    case True
    then show ?thesis using 2 by simp
  next
    case False
    then have "m = MethodSignature i (Identifier mn)" using 2 by simp
    moreover have "member_recorded tc ?info (MethodSignature i (Identifier mn))"
      by (simp add: push_symbol_same)
    with scan_members_grows
    have "member_recorded tc (scan_members tc ?info rest) (MethodSignature i (Identifier mn))"
      by (rule member_recorded_mono)
    ultimately show ?thesis by simp
  qed
next
  case (3 tc info i rest)
  then show ?case by auto
next
  case (4 tc info s rest)
  show ?case
  proof (cases "m \<in> set rest")
    case True
    then show ?thesis using 4 by simp
  next
    case False
    then have "m = ConstructSignatureDeclaration s" using 4 by simp
    moreover have "member_recorded tc (info\<lparr>constructors := constructors info @ [s]\<rparr>)
       (ConstructSignatureDeclaration s)"
      by simp
    with scan_members_grows
    have "member_recorded tc (scan_members tc (info\<lparr>constructors := constructors info @ [s]\<rparr>) rest)
       (ConstructSignatureDeclaration s)"
      by (rule member_recorded_mono)
    ultimately show ?thesis by simp
  qed
next
  case (5 tc info rest)
  then show ?case by auto
qed

lemma getOrDefault_fst: "fst (getOrDefault m k d) = (case m k of None \<Rightarrow> d | Some v \<Rightarrow> v)"
  by (simp add: getOrDefault_def split: option.splits)

lemma getOrDefault_snd_other: "k' \<noteq> k \<Longrightarrow> snd (getOrDefault m k d) k' = m k'"
  by (simp add: getOrDefault_def split: option.splits)

lemma scan_interface_entry:
  assumes "scan_statement tc idx (InterfaceDeclaration i name members) = Inr idx'"
  shows "identifiers idx' = identifiers idx" and "functions idx' = functions idx"
    and "\<And>c. c \<noteq> name \<Longrightarrow> interfaces idx' c = interfaces idx c"
    and "interfaces idx' name = Some (scan_members tc
           ((case interfaces idx name of None \<Rightarrow> new_InterfaceInfo | Some v \<Rightarrow> v)
              \<lparr>symbols := symbols (case interfaces idx name of None \<Rightarrow> new_InterfaceInfo | Some v \<Rightarrow> v) @
                 [type_symbol (tc (StatementNode (InterfaceDeclaration i name members)))]\<rparr>)
           members)"
  using assms by (auto simp: getOrDefault_def split: option.splits)

lemma scan_statement_grows:
  assumes "scan_statement tc idx st = Inr idx'"
  shows "index_grows idx idx'"
proof (cases st)
  case (VariableStatement ds)
  with assms show ?thesis
    by (auto simp: index_grows_def grows_refl info_grows_refl scan_declarations_grows)
next
  case (FunctionDeclaration i nm s)
  with assms show ?thesis
    by (cases nm) (auto simp: index_grows_def grows_refl info_grows_refl grows_push_symbol)
next
  case (InterfaceDeclaration i name members)
  note e = scan_interface_entry [OF assms [unfolded InterfaceDeclaration]]
  have "\<exists>info'. interfaces idx' c = Some info' \<and> info_grows info info'"
    if c: "interfaces idx c = Some info" for c info
  proof (cases "c = name")
    case True
    let ?start = "info\<lparr>symbols := symbols info @
       [type_symbol (tc (StatementNode (InterfaceDeclaration i name members)))]\<rparr>"
    have "info_grows info ?start" by (simp add: info_grows_def grows_refl)
    then have "info_grows info (scan_members tc ?start members)"
      using scan_members_grows by (rule info_grows_trans)
    then show ?thesis using e(4) c True by simp
  next
    case False
    then show ?thesis using e(3) c info_grows_refl by simp
  qed
  then show ?thesis by (simp add: index_grows_def e(1,2) grows_refl)
next
  case OtherStatement
  with assms show ?thesis by (simp add: index_grows_refl)
qed

lemma recorded_mono:
  assumes "index_grows idx idx'" and "recorded tc idx st"
  shows "recorded tc idx' st"
proof (cases st)
  case (VariableStatement ds)
  with assms show ?thesis
    by (auto simp: index_grows_def intro: declaration_recorded_mono)
next
  case (FunctionDeclaration i nm s)
  with assms show ?thesis
    by (cases nm) (auto simp: index_grows_def dest: grows_mono)
next
  case (InterfaceDeclaration i name members)
  from assms(2) obtain info where info: "interfaces idx name = Some info"
    and sym: "type_symbol (tc (StatementNode (InterfaceDeclaration i name members))) \<in> set (symbols info)"
    and mem: "\<forall>m \<in> set members. member_recorded tc info m"
    unfolding InterfaceDeclaration by auto
  from assms(1) info obtain info' where info': "interfaces idx' name = Some info'"
    and g: "info_grows info info'"
    unfolding index_grows_def by blast
  from g sym have "type_symbol (tc (StatementNode (InterfaceDeclaration i name members))) \<in> set (symbols info')"
    by (auto simp: info_grows_def)
  moreover from g mem have "\<forall>m \<in> set members. member_recorded tc info' m"
    by (blast intro: member_recorded_mono)
  ultimately show ?thesis using info' unfolding InterfaceDeclaration by simp
next
  case OtherStatement
  then show ?thesis by simp
qed

lemma scan_statement_recorded:
  assumes "scan_statement tc idx st = Inr idx'"
  shows "recorded tc idx' st"
proof (cases st)
  case (VariableStatement ds)
  with assms show ?thesis by (auto simp: scan_declarations_recorded)
next
  case (FunctionDeclaration i nm s)
  with assms show ?thesis by (cases nm) (auto simp: push_symbol_same)
next
  case (InterfaceDeclaration i name members)
  note e = scan_interface_entry [OF assms [unfolded InterfaceDeclaration]]
  let ?old = "case interfaces idx name of None \<Rightarrow> new_InterfaceInfo | Some v \<Rightarrow> v"
  let ?sym = "type_symbol (tc (StatementNode (InterfaceDeclaration i name members)))"
  let ?start = "?old\<lparr>symbols := symbols ?old @ [?sym]\<rparr>"
  have "info_grows ?start (scan_members tc ?start members)" by (rule scan_members_grows)
  then have "?sym \<in> set (symbols (scan_members tc ?start members))"
    by (auto simp: info_grows_def)
  moreover have "\<forall>m \<in> set members. member_recorded tc (scan_members tc ?start members) m"
    by (simp add: scan_members_recorded)
  ultimately show ?thesis unfolding InterfaceDeclaration using e(4) by simp
next
  case OtherStatement
  then show ?thesis by simp
qed

lemma scan_statements_grows:
  "scan_statements tc idx stmts = Inr idx' \<Longrightarrow> index_grows idx idx'"
proof (induction stmts arbitrary: idx)
  case Nil
  then show ?case by (simp add: index_grows_refl)
next
  case (Cons st stmts)
  from Cons.prems obtain mid where m: "scan_statement tc idx st = Inr mid"
    and r: "scan_statements tc mid stmts = Inr idx'"
    by (auto split: sum.splits)
  from scan_statement_grows [OF m] Cons.IH [OF r] show ?case by (rule index_grows_trans)
qed

lemma scan_statements_recorded:
  "scan_statements tc idx stmts = Inr idx' \<Longrightarrow> st \<in> set stmts \<Longrightarrow> recorded tc idx' st"
proof (induction stmts arbitrary: idx)
  case Nil
  then show ?case by simp
next
  case (Cons a stmts)
  from Cons.prems(1) obtain mid where m: "scan_statement tc idx a = Inr mid"
    and r: "scan_statements tc mid stmts = Inr idx'"
    by (auto split: sum.splits)
  show ?case
  proof (cases "st \<in> set stmts")
    case True
    with r show ?thesis by (rule Cons.IH)
  next
    case False
    then have "st = a" using Cons.prems(2) by simp
    with m have "recorded tc mid st" by (simp add: scan_statement_recorded)
    with scan_statements_grows [OF r] show ?thesis by (rule recorded_mono)
  qed
qed

lemma scan_files_step:
  assumes "scan_files host program tc typesPath idx (fileName # rest) = Inr idx'"
  obtains sourceFile mid where "pathExistsSync host (join host [typesPath, fileName])"
    and "getSourceFileByPath program (join host [typesPath, fileName]) = Some sourceFile"
    and "scan_statements tc idx (statements sourceFile) = Inr mid"
    and "scan_files host program tc typesPath mid rest = Inr idx'"
  using assms by (auto simp: Let_def split: if_splits option.splits sum.splits)

lemma scan_files_grows:
  "scan_files host program tc typesPath idx files = Inr idx' \<Longrightarrow> index_grows idx idx'"
proof (induction files arbitrary: idx)
  case Nil
  then show ?case by (simp add: index_grows_refl)
next
  case (Cons f files)
  from Cons.prems obtain sf mid where m: "scan_statements tc idx (statements sf) = Inr mid"
    and r: "scan_files host program tc typesPath mid files = Inr idx'"
    by (rule scan_files_step)
  from scan_statements_grows [OF m] Cons.IH [OF r] show ?case by (rule index_grows_trans)
qed

lemma scan_files_recorded:
  assumes "scan_files host program tc typesPath idx files = Inr idx'"
    and "fileName \<in> set files"
    and "getSourceFileByPath program (join host [typesPath, fileName]) = Some sourceFile"
    and "st \<in> set (statements sourceFile)"
  shows "recorded tc idx' st"
  using assms(1,2)
proof (induction files arbitrary: idx)
  case Nil
  then show ?case by simp
next
  case (Cons f files)
  from Cons.prems(1) obtain sf mid
    where sf: "getSourceFileByPath program (join host [typesPath, f]) = Some sf"
    and m: "scan_statements tc idx (statements sf) = Inr mid"
    and r: "scan_files host program tc typesPath mid files = Inr idx'"
    by (rule scan_files_step)
  show ?case
  proof (cases "fileName \<in> set files")
    case True
    with r show ?thesis by (rule Cons.IH)
  next
    case False
    then have "f = fileName" using Cons.prems(2) by simp
    with sf assms(3) have "sf = sourceFile" by simp
    with m assms(4) have "recorded tc mid st" by (simp add: scan_statements_recorded)
    with scan_files_grows [OF r] show ?thesis by (rule recorded_mono)
  qed
qed

lemma scan_recorded:
  assumes "scan host program tc nodeModulesPath = Inr idx"
    and "fileName \<in> set INCLUDE_FILES"
    and "getSourceFileByPath program
           (join host [join host [nodeModulesPath, ''@rbxts'', ''types'', ''include''], fileName])
         = Some sourceFile"
    and "st \<in> set (statements sourceFile)"
  shows "recorded tc idx st"
  using assms unfolding scan_def by (rule scan_files_recorded)

lemma scan_statements_unnamed:
  "FunctionDeclaration i None s \<in> set stmts \<Longrightarrow> scan_statements tc idx stmts = Inl TypeError"
proof (induction stmts arbitrary: idx)
  case Nil
  then show ?case by simp
next
  case (Cons a stmts)
  show ?case
  proof (cases "scan_statement tc idx a")
    case (Inl e)
    then have "e = TypeError"
      by (cases "(tc, idx, a)" rule: scan_statement.cases) (auto split: prod.splits)
    with Inl show ?thesis by simp
  next
    case (Inr mid)
    then have "a \<noteq> FunctionDeclaration i None s" by auto
    with Cons.prems have "FunctionDeclaration i None s \<in> set stmts" by simp
    then have "scan_statements tc mid stmts = Inl TypeError" by (rule Cons.IH)
    with Inr show ?thesis by simp
  qed
qed

lemma scan_statements_named:
  "(\<And>i s. FunctionDeclaration i None s \<notin> set stmts) \<Longrightarrow> \<exists>idx'. scan_statements tc idx stmts = Inr idx'"
proof (induction stmts arbitrary: idx)
  case Nil
  then show ?case by simp
next
  case (Cons a stmts)
  have "\<exists>mid. scan_statement tc idx a = Inr mid"
    using Cons.prems [of _ _]
    by (cases "(tc, idx, a)" rule: scan_statement.cases) (auto split: prod.splits)
  then obtain mid where mid: "scan_statement tc idx a = Inr mid" ..
  have "\<exists>idx'. scan_statements tc mid stmts = Inr idx'"
    using Cons.prems by (intro Cons.IH) auto
  with mid show ?case by simp
qed

lemma scan_statements_error:
  "scan_statements tc idx stmts = Inl e \<Longrightarrow> e = TypeError"
proof (induction stmts arbitrary: idx)
  case Nil
  then show ?case by simp
next
  case (Cons a stmts)
  show ?case
  proof (cases "scan_statement tc idx a")
    case (Inl e')
    then have "e' = TypeError"
      by (cases "(tc, idx, a)" rule: scan_statement.cases) (auto split: prod.splits)
    with Inl Cons.prems show ?thesis by simp
  next
    case (Inr mid)
    with Cons.prems have "scan_statements tc mid stmts = Inl e" by simp
    then show ?thesis by (rule Cons.IH)
  qed
qed

lemma scan_files_unnamed:
  assumes "\<forall>f \<in> set files. pathExistsSync host (join host [typesPath, f])
             \<and> getSourceFileByPath program (join host [typesPath, f]) \<noteq> None"
    and "f \<in> set files" and "getSourceFileByPath program (join host [typesPath, f]) = Some sf"
    and "FunctionDeclaration i None s \<in> set (statements sf)"
  shows "scan_files host program tc typesPath idx files = Inl TypeError"
  using assms(1,2)
proof (induction files arbitrary: idx)
  case Nil
  then show ?case by simp
next
  case (Cons g files)
  from Cons.prems(1) obtain sg where ex: "pathExistsSync host (join host [typesPath, g])"
    and sg: "getSourceFileByPath program (join host [typesPath, g]) = Some sg"
    by auto
  show ?case
  proof (cases "scan_statements tc idx (statements sg)")
    case (Inl e)
    then have "e = TypeError" by (rule scan_statements_error)
    with Inl ex sg show ?thesis by simp
  next
    case (Inr mid)
    have "g \<noteq> f"
    proof
      assume "g = f"
      with sg assms(3) have "sg = sf" by simp
      with assms(4) have "scan_statements tc idx (statements sg) = Inl TypeError"
        by (simp add: scan_statements_unnamed)
      with Inr show False by simp
    qed
    with Cons.prems(2) have "f \<in> set files" by simp
    moreover from Cons.prems(1) have "\<forall>f \<in> set files. pathExistsSync host (join host [typesPath, f])
             \<and> getSourceFileByPath program (join host [typesPath, f]) \<noteq> None"
      by simp
    ultimately have "scan_files host program tc typesPath mid files = Inl TypeError"
      by (intro Cons.IH)
    with Inr ex sg show ?thesis by simp
  qed
qed

lemma scan_files_named:
  assumes "\<forall>f \<in> set files. pathExistsSync host (join host [typesPath, f])
             \<and> getSourceFileByPath program (join host [typesPath, f]) \<noteq> None"
    and "\<And>f sf i s. f \<in> set files \<Longrightarrow> getSourceFileByPath program (join host [typesPath, f]) = Some sf
           \<Longrightarrow> FunctionDeclaration i None s \<notin> set (statements sf)"
  shows "\<exists>idx'. scan_files host program tc typesPath idx files = Inr idx'"
  using assms
proof (induction files arbitrary: idx)
  case Nil
  then show ?case by simp
next
  case (Cons g files)
  from Cons.prems(1) obtain sg where ex: "pathExistsSync host (join host [typesPath, g])"
    and sg: "getSourceFileByPath program (join host [typesPath, g]) = Some sg"
    by auto
  have "FunctionDeclaration i None s \<notin> set (statements sg)" for i s
    using Cons.prems(2) [of g sg i s] sg by simp
  then obtain mid where mid: "scan_statements tc idx (statements sg) = Inr mid"
    using scan_statements_named [of "statements sg" tc idx] by blast
  have "\<exists>idx'. scan_files host program tc typesPath mid files = Inr idx'"
  proof (rule Cons.IH)
    show "\<forall>f \<in> set files. pathExistsSync host (join host [typesPath, f])
             \<and> getSourceFileByPath program (join host [typesPath, f]) \<noteq> None"
      using Cons.prems(1) by simp
    show "FunctionDeclaration i None s \<notin> set (statements sf)"
      if "f \<in> set files" "getSourceFileByPath program (join host [typesPath, f]) = Some sf"
      for f sf i s
      using Cons.prems(2) [of f sf i s] that by simp
  qed
  with mid ex sg show ?case by simp
qed

lemma scan_declarations_append:
  "scan_declarations ids (xs @ ys) = scan_declarations (scan_declarations ids xs) ys"
  by (induction xs arbitrary: ids) (auto split: Name.splits)

lemma scan_declarations_filter:
  "scan_declarations ids ds =
     scan_declarations ids (filter (\<lambda>d. declaration_name d \<noteq> NonIdentifierName) ds)"
  by (induction ds arbitrary: ids) (auto split: Name.splits)

lemma scan_members_filter:
  "scan_members tc info ms =
     scan_members tc info
       (filter (\<lambda>m. case m of MethodSignature j NonIdentifierName \<Rightarrow> False | _ \<Rightarrow> True) ms)"
  by (induction tc info ms rule: scan_members.induct) auto

lemma scan_statements_filter:
  "scan_statements tc idx stmts =
     scan_statements tc idx (filter (\<lambda>st. st \<noteq> OtherStatement) stmts)"
proof (induction stmts arbitrary: idx)
  case Nil
  then show ?case by simp
next
  case (Cons a stmts)
  then show ?case by (cases "a = OtherStatement") (auto split: sum.splits)
qed

section \<open>The binder fails at the first unbound target\<close>

lemma bind_all_first_missing:
  assumes "map msg (filter (\<lambda>n. lookup n = None) (map fst tbl)) = m # others"
  shows "bind_all lookup msg macros tbl = Inl (ProjectError m)"
proof -
  from assms obtain n ns where "filter (\<lambda>n. lookup n = None) (map fst tbl) = n # ns" and "m = msg n"
    by (cases "filter (\<lambda>n. lookup n = None) (map fst tbl)") auto
  then show ?thesis by (simp add: bind_all_missing)
qed

lemma bind_all_none_missing:
  assumes "map msg (filter (\<lambda>n. lookup n = None) (map fst tbl)) = []"
  shows "\<exists>macros'. bind_all lookup msg macros tbl = Inr macros'"
  using assms by (intro bind_all_present) simp

lemma bind_property_calls_first_missing:
  "unbound_method_targets idx tbl = m # others \<Longrightarrow>
     bind_property_calls idx macros tbl = Inl (ProjectError m)"
proof (induction tbl arbitrary: macros)
  case Nil
  then show ?case by (simp add: unbound_method_targets_def)
next
  case (Cons a tbl)
  obtain c ms where a: "a = (c, ms)" by (cases a)
  show ?case
  proof (cases "interfaces idx c")
    case None
    with Cons.prems a show ?thesis by (simp add: unbound_method_targets_def)
  next
    case (Some info)
    let ?here = "map (\<lambda>mn. ''(MacroManager) No method found for '' @ c @ ''.'' @ mn)
              (filter (\<lambda>mn. methods info mn = None) (map fst ms))"
    have split: "unbound_method_targets idx (a # tbl) = ?here @ unbound_method_targets idx tbl"
      using a Some by (simp add: unbound_method_targets_def)
    show ?thesis
    proof (cases ?here)
      case Nil
      then obtain mid where mid: "bind_methods c info macros ms = Inr mid"
        unfolding bind_methods_bind_all using bind_all_none_missing by blast
      from Nil split Cons.prems have "unbound_method_targets idx tbl = m # others" by simp
      then have "bind_property_calls idx mid tbl = Inl (ProjectError m)" by (rule Cons.IH)
      with mid a Some show ?thesis by simp
    next
      case (Cons h t)
      with split Cons.prems have "h = m" by simp
      with Cons have "bind_methods c info macros ms = Inl (ProjectError m)"
        unfolding bind_methods_bind_all by (intro bind_all_first_missing) simp
      with a Some show ?thesis by simp
    qed
  qed
qed

lemma bind_property_calls_none_missing:
  "unbound_method_targets idx tbl = [] \<Longrightarrow> \<exists>macros'. bind_property_calls idx macros tbl = Inr macros'"
proof (induction tbl arbitrary: macros)
  case Nil
  then show ?case by simp
next
  case (Cons a tbl)
  obtain c ms where a: "a = (c, ms)" by (cases a)
  show ?case
  proof (cases "interfaces idx c")
    case None
    with Cons.prems a show ?thesis by (simp add: unbound_method_targets_def)
  next
    case (Some info)
    let ?here = "map (\<lambda>mn. ''(MacroManager) No method found for '' @ c @ ''.'' @ mn)
              (filter (\<lambda>mn. methods info mn = None) (map fst ms))"
    have split: "unbound_method_targets idx (a # tbl) = ?here @ unbound_method_targets idx tbl"
      using a Some by (simp add: unbound_method_targets_def)
    with Cons.prems have here: "?here = []" and rest: "unbound_method_targets idx tbl = []"
      by simp_all
    from here obtain mid where mid: "bind_methods c info macros ms = Inr mid"
      unfolding bind_methods_bind_all using bind_all_none_missing by blast
    from rest obtain macros' where "bind_property_calls idx mid tbl = Inr macros'"
      using Cons.IH by blast
    with mid a Some show ?thesis by simp
  qed
qed

lemma bind_first_unbound:
  assumes "unbound_targets idx tables = m # others"
  shows "bind idx tables = Inl (ProjectError m)"
proof -
  let ?A = "map (\<lambda>name. ''(MacroManager) No identifier found for '' @ name)
       (filter (\<lambda>name. identifiers idx name = None) (map fst (IDENTIFIER_MACROS tables)))"
  let ?B = "map (\<lambda>name. ''(MacroManager) No function found for '' @ name)
       (filter (\<lambda>name. functions idx name = None) (map fst (CALL_MACROS tables)))"
  let ?C = "map (\<lambda>name. ''(MacroManager) No interface found for '' @ name)
       (filter (\<lambda>name. map_option constructors (interfaces idx name) = None) (map fst (CONSTRUCTOR_MACROS tables)))"
  let ?D = "unbound_method_targets idx (PROPERTY_CALL_MACROS tables)"
  have all: "?A @ ?B @ ?C @ ?D = m # others"
    using assms by (simp add: unbound_targets_def)
  show ?thesis
  proof (cases ?A)
    case (Cons h t)
    with all have "?A = m # t" by simp
    then have "bind_identifiers idx Map.empty (IDENTIFIER_MACROS tables) = Inl (ProjectError m)"
      unfolding bind_identifiers_bind_all by (rule bind_all_first_missing)
    then show ?thesis by (simp add: bind_def)
  next
    case A: Nil
    then obtain im where im: "bind_identifiers idx Map.empty (IDENTIFIER_MACROS tables) = Inr im"
      unfolding bind_identifiers_bind_all using bind_all_none_missing by blast
    show ?thesis
    proof (cases ?B)
      case (Cons h t)
      with all A have "?B = m # t" by simp
      then have "bind_calls idx Map.empty (CALL_MACROS tables) = Inl (ProjectError m)"
        unfolding bind_calls_bind_all by (rule bind_all_first_missing)
      with im show ?thesis by (simp add: bind_def)
    next
      case B: Nil
      then obtain cm where cm: "bind_calls idx Map.empty (CALL_MACROS tables) = Inr cm"
        unfolding bind_calls_bind_all using bind_all_none_missing by blast
      show ?thesis
      proof (cases ?C)
        case (Cons h t)
        with all A B have "?C = m # t" by simp
        then have "bind_constructors idx Map.empty (CONSTRUCTOR_MACROS tables) = Inl (ProjectError m)"
          unfolding bind_constructors_bind_all by (rule bind_all_first_missing)
        with im cm show ?thesis by (simp add: bind_def)
      next
        case C: Nil
        then have "\<exists>nm. bind_all (\<lambda>n. map_option constructors (interfaces idx n))
            (\<lambda>name. ''(MacroManager) No interface found for '' @ name) Map.empty
            (CONSTRUCTOR_MACROS tables) = Inr nm"
          by (rule bind_all_none_missing)
        then obtain nm where nm: "bind_constructors idx Map.empty (CONSTRUCTOR_MACROS tables) = Inr nm"
          unfolding bind_constructors_bind_all by blast
        from all A B C have "?D = m # others" by simp
        then have "bind_property_calls idx Map.empty (PROPERTY_CALL_MACROS tables) = Inl (ProjectError m)"
          by (rule bind_property_calls_first_missing)
        with im cm nm show ?thesis by (simp add: bind_def)
      qed
    qed
  qed
qed

lemma bind_none_unbound:
  assumes "unbound_targets idx tables = []"
  shows "\<exists>reg. bind idx tables = Inr reg"
proof -
  from assms have 
    A: "map (\<lambda>name. ''(MacroManager) No identifier found for '' @ name)
       (filter (\<lambda>name. identifiers idx name = None) (map fst (IDENTIFIER_MACROS tables))) = []"
    and B: "map (\<lambda>name. ''(MacroManager) No function found for '' @ name)
       (filter (\<lambda>name. functions idx name = None) (map fst (CALL_MACROS tables))) = []"
    and C: "map (\<lambda>name. ''(MacroManager) No interface found for '' @ name)
       (filter (\<lambda>name. map_option constructors (interfaces idx name) = None) (map fst (CONSTRUCTOR_MACROS tables))) = []"
    and D: "unbound_method_targets idx (PROPERTY_CALL_MACROS tables) = []"
    by (simp_all add: unbound_targets_def)
  from A obtain im where im: "bind_identifiers idx Map.empty (IDENTIFIER_MACROS tables) = Inr im"
    unfolding bind_identifiers_bind_all using bind_all_none_missing by blast
  from B obtain cm where cm: "bind_calls idx Map.empty (CALL_MACROS tables) = Inr cm"
    unfolding bind_calls_bind_all using bind_all_none_missing by blast
  from C have "\<exists>nm. bind_all (\<lambda>n. map_option constructors (interfaces idx n))
      (\<lambda>name. ''(MacroManager) No interface found for '' @ name) Map.empty
      (CONSTRUCTOR_MACROS tables) = Inr nm"
    by (rule bind_all_none_missing)
  then obtain nm where nm: "bind_constructors idx Map.empty (CONSTRUCTOR_MACROS tables) = Inr nm"
    unfolding bind_constructors_bind_all by blast
  from D obtain pm where pm: "bind_property_calls idx Map.empty (PROPERTY_CALL_MACROS tables) = Inr pm"
    using bind_property_calls_none_missing by blast
  from im cm nm pm show ?thesis by (simp add: bind_def)
qed

section \<open>Evaluating the examples\<close>

lemmas example_eval = scan_def INCLUDE_FILES_def example_host_def example_program_def
  empty_index_def push_symbol_def getOrDefault_def new_InterfaceInfo_def Let_def
  new_MacroManager_def bind_def no_macros_def
  getIdentifierMacro_def getCallMacro_def getConstructorMacro_def getPropertyCallMacro_def

lemma scan_nothing:
  "scan example_host (example_program [] []) example_checker ''node_modules'' = Inr empty_index"
  by (simp add: example_eval)

lemma in_unbound_targets:
  "(name, macro) \<in> set (IDENTIFIER_MACROS tables) \<Longrightarrow> identifiers idx name = None \<Longrightarrow>
     ''(MacroManager) No identifier found for '' @ name \<in> set (unbound_targets idx tables)"
  "(name, cmacro) \<in> set (CALL_MACROS tables) \<Longrightarrow> functions idx name = None \<Longrightarrow>
     ''(MacroManager) No function found for '' @ name \<in> set (unbound_targets idx tables)"
  "(name, nmacro) \<in> set (CONSTRUCTOR_MACROS tables) \<Longrightarrow> interfaces idx name = None \<Longrightarrow>
     ''(MacroManager) No interface found for '' @ name \<in> set (unbound_targets idx tables)"
  "(name, methodMacros) \<in> set (PROPERTY_CALL_MACROS tables) \<Longrightarrow> interfaces idx name = None \<Longrightarrow>
     ''(MacroManager) No interface found for '' @ name \<in> set (unbound_targets idx tables)"
  "(name, methodMacros) \<in> set (PROPERTY_CALL_MACROS tables) \<Longrightarrow> interfaces idx name = Some info \<Longrightarrow>
     (methodName, pmacro) \<in> set methodMacros \<Longrightarrow> methods info methodName = None \<Longrightarrow>
     ''(MacroManager) No method found for '' @ name @ ''.'' @ methodName
       \<in> set (unbound_targets idx tables)"
  unfolding unbound_targets_def unbound_method_targets_def
  by (force simp: image_iff)+

lemma scan_overloads:
  "scan example_host (example_program overloads []) example_checker ''node_modules''
     = Inr (empty_index\<lparr>functions := [''f'' \<mapsto> [101, 102]]\<rparr>)"
  by (simp add: example_eval overloads_def)

lemma new_overloads:
  "\<exists>reg. new_MacroManager example_host overloads_macros (example_program overloads [])
     example_checker ''node_modules'' = Inr reg"
  by (simp add: example_eval overloads_def overloads_macros_def)

lemma scan_merged_vector:
  "scan example_host (example_program (fst merged_vector) (snd merged_vector)) example_checker
     ''node_modules''
   = Inr (empty_index\<lparr>interfaces :=
       [''Vector'' \<mapsto> \<lparr>symbols = [201, 202], constructors = [21, 22], methods = Map.empty\<rparr>]\<rparr>)"
  by (simp add: example_eval merged_vector_def)

lemma new_merged_vector:
  "\<exists>reg. new_MacroManager example_host vector_macros
     (example_program (fst merged_vector) (snd merged_vector)) example_checker ''node_modules'' = Inr reg"
  by (simp add: example_eval merged_vector_def vector_macros_def)

lemma scan_merged_push:
  "scan example_host (example_program (fst merged_push) (snd merged_push)) example_checker
     ''node_modules''
   = Inr (empty_index\<lparr>interfaces :=
       [''Array'' \<mapsto> \<lparr>symbols = [201, 202], constructors = [],
          methods = [''push'' \<mapsto> [311, 312]]\<rparr>]\<rparr>)"
  by (simp add: example_eval merged_push_def)

lemma new_merged_push:
  "\<exists>reg. new_MacroManager example_host push_macros
     (example_program (fst merged_push) (snd merged_push)) example_checker ''node_modules'' = Inr reg"
  by (simp add: example_eval merged_push_def push_macros_def)

lemma scan_push_pop:
  "scan example_host (example_program (fst push_pop) (snd push_pop)) example_checker
     ''node_modules''
   = Inr (empty_index\<lparr>interfaces :=
       [''Array'' \<mapsto> \<lparr>symbols = [201, 202], constructors = [],
          methods = [''push'' \<mapsto> [311], ''pop'' \<mapsto> [312]]\<rparr>]\<rparr>)"
  by (simp add: example_eval push_pop_def)

lemma new_push_pop:
  "\<exists>reg. new_MacroManager example_host push_macros
     (example_program (fst push_pop) (snd push_pop)) example_checker ''node_modules'' = Inr reg"
  by (simp add: example_eval push_pop_def push_macros_def)

section \<open>What a finished construction has bound\<close>

lemma declared_recorded:
  assumes "scan host program tc nodeModulesPath = Inr idx"
    and "declared host program nodeModulesPath st"
  shows "recorded tc idx st"
proof -
  from assms(2) obtain fileName sourceFile where "fileName \<in> set INCLUDE_FILES"
    and "getSourceFileByPath program
           (join host [join host [nodeModulesPath, ''@rbxts'', ''types'', ''include''], fileName])
         = Some sourceFile"
    and "st \<in> set (statements sourceFile)"
    unfolding declared_def by (auto split: option.splits)
  with assms(1) show ?thesis by (rule scan_recorded)
qed

lemma new_MacroManager_Inr:
  assumes "new_MacroManager host tables program tc nodeModulesPath = Inr reg"
    and "scan host program tc nodeModulesPath = Inr idx"
  shows "bind_identifiers idx Map.empty (IDENTIFIER_MACROS tables) = Inr (identifierMacros reg)"
    and "bind_calls idx Map.empty (CALL_MACROS tables) = Inr (callMacros reg)"
    and "bind_constructors idx Map.empty (CONSTRUCTOR_MACROS tables) = Inr (constructorMacros reg)"
    and "bind_property_calls idx Map.empty (PROPERTY_CALL_MACROS tables) = Inr (propertyCallMacros reg)"
  using assms by (auto simp: new_MacroManager_def bind_def split: sum.splits)

lemma bind_all_table:
  assumes "bind_all lookup msg Map.empty tbl = Inr macros'" and "(name, macro) \<in> set tbl"
  shows "\<exists>syms. lookup name = Some syms \<and>
           (\<forall>s \<in> set syms.
              (\<forall>name' macro' syms'. (name', macro') \<in> set tbl \<and> lookup name' = Some syms' \<and> s \<in> set syms'
                 \<longrightarrow> macro' = macro)
              \<longrightarrow> macros' s = Some macro)"
proof -
  from assms have "lookup name \<noteq> None" by (rule bind_all_Inr_present)
  then obtain syms where syms: "lookup name = Some syms" by blast
  have "macros' s = Some macro"
    if "s \<in> set syms"
      and "\<forall>name' macro' syms'. (name', macro') \<in> set tbl \<and> lookup name' = Some syms' \<and> s \<in> set syms'
                 \<longrightarrow> macro' = macro" for s
  proof -
    from that(2) have "macro' = macro"
      if "(name', macro') \<in> set tbl" "lookup name' = Some syms'" "s \<in> set syms'" for name' macro' syms'
      using that by blast
    with assms syms that(1) show ?thesis by (rule bind_all_bound)
  qed
  with syms show ?thesis by blast
qed

lemma bind_all_unbound_iff:
  assumes "bind_all lookup msg Map.empty tbl = Inr macros'"
  shows "macros' s = None \<longleftrightarrow>
           \<not> (\<exists>name macro syms. (name, macro) \<in> set tbl \<and> lookup name = Some syms \<and> s \<in> set syms)"
proof
  assume none: "macros' s = None"
  show "\<not> (\<exists>name macro syms. (name, macro) \<in> set tbl \<and> lookup name = Some syms \<and> s \<in> set syms)"
  proof
    assume "\<exists>name macro syms. (name, macro) \<in> set tbl \<and> lookup name = Some syms \<and> s \<in> set syms"
    then obtain name macro syms where "(name, macro) \<in> set tbl" "lookup name = Some syms" "s \<in> set syms"
      by blast
    with assms have "macros' s \<noteq> None" by (rule bind_all_recorded)
    with none show False by simp
  qed
next
  assume "\<not> (\<exists>name macro syms. (name, macro) \<in> set tbl \<and> lookup name = Some syms \<and> s \<in> set syms)"
  then have "s \<notin> set syms" if "(name, macro) \<in> set tbl" "lookup name = Some syms" for name macro syms
    using that by blast
  with assms have "macros' s = Map.empty s" by (rule bind_all_frame)
  then show "macros' s = None" by simp
qed

lemma bind_property_calls_unbound_iff:
  assumes "bind_property_calls idx Map.empty tbl = Inr macros'"
  shows "macros' s = None \<longleftrightarrow>
           \<not> (\<exists>className methodMacros info methodName macro syms.
                 (className, methodMacros) \<in> set tbl \<and> interfaces idx className = Some info
                 \<and> (methodName, macro) \<in> set methodMacros \<and> methods info methodName = Some syms
                 \<and> s \<in> set syms)"
proof
  assume none: "macros' s = None"
  show "\<not> (\<exists>className methodMacros info methodName macro syms.
                 (className, methodMacros) \<in> set tbl \<and> interfaces idx className = Some info
                 \<and> (methodName, macro) \<in> set methodMacros \<and> methods info methodName = Some syms
                 \<and> s \<in> set syms)"
  proof
    assume "\<exists>className methodMacros info methodName macro syms.
                 (className, methodMacros) \<in> set tbl \<and> interfaces idx className = Some info
                 \<and> (methodName, macro) \<in> set methodMacros \<and> methods info methodName = Some syms
                 \<and> s \<in> set syms"
    then obtain c ms info mn macro syms where "(c, ms) \<in> set tbl" "interfaces idx c = Some info"
      "(mn, macro) \<in> set ms" "methods info mn = Some syms" "s \<in> set syms"
      by blast
    with assms have "macros' s \<noteq> None" by (rule bind_property_calls_recorded)
    with none show False by simp
  qed
next
  assume "\<not> (\<exists>className methodMacros info methodName macro syms.
                 (className, methodMacros) \<in> set tbl \<and> interfaces idx className = Some info
                 \<and> (methodName, macro) \<in> set methodMacros \<and> methods info methodName = Some syms
                 \<and> s \<in> set syms)"
  then have "s \<notin> set syms" if "(c, ms) \<in> set tbl" "interfaces idx c = Some info"
      "(mn, macro) \<in> set ms" "methods info mn = Some syms" for c ms info mn macro syms
    using that by blast
  with assms have "macros' s = Map.empty s" by (rule bind_property_calls_frame)
  then show "macros' s = None" by simp
qed

lemma bind_all_value:
  assumes "bind_all lookup msg macros tbl = Inr macros'" and "macros' s = Some macro"
  shows "macros s = Some macro
           \<or> (\<exists>name syms. (name, macro) \<in> set tbl \<and> lookup name = Some syms \<and> s \<in> set syms)"
  using assms
proof (induction tbl arbitrary: macros)
  case Nil
  then show ?case by simp
next
  case (Cons a tbl)
  obtain n0 P0 where a: "a = (n0, P0)" by (cases a)
  from Cons.prems(1) a obtain l0 where l0: "lookup n0 = Some l0"
    and rest: "bind_all lookup msg (set_all macros l0 P0) tbl = Inr macros'"
    by (auto split: option.splits)
  from Cons.IH [OF rest Cons.prems(2)]
  consider "set_all macros l0 P0 s = Some macro"
    | "\<exists>name syms. (name, macro) \<in> set tbl \<and> lookup name = Some syms \<and> s \<in> set syms"
    by blast
  then show ?case
  proof cases
    case 1
    show ?thesis
    proof (cases "s \<in> set l0")
      case True
      with 1 have "P0 = macro" by (simp add: set_all_apply)
      with True l0 a show ?thesis by auto
    next
      case False
      with 1 show ?thesis by (simp add: set_all_apply)
    qed
  next
    case 2
    then show ?thesis by auto
  qed
qed

lemma bind_property_calls_value:
  assumes "bind_property_calls idx macros tbl = Inr macros'" and "macros' s = Some macro"
  shows "macros s = Some macro
           \<or> (\<exists>className methodMacros info methodName syms.
                 (className, methodMacros) \<in> set tbl \<and> interfaces idx className = Some info
                 \<and> (methodName, macro) \<in> set methodMacros \<and> methods info methodName = Some syms
                 \<and> s \<in> set syms)"
  using assms
proof (induction tbl arbitrary: macros)
  case Nil
  then show ?case by simp
next
  case (Cons a tbl)
  obtain c ms where a: "a = (c, ms)" by (cases a)
  from Cons.prems(1) a obtain info mid where info: "interfaces idx c = Some info"
    and inner: "bind_methods c info macros ms = Inr mid"
    and rest: "bind_property_calls idx mid tbl = Inr macros'"
    by (auto split: option.splits sum.splits)
  from Cons.IH [OF rest Cons.prems(2)]
  consider "mid s = Some macro"
    | "\<exists>className methodMacros info methodName syms.
                 (className, methodMacros) \<in> set tbl \<and> interfaces idx className = Some info
                 \<and> (methodName, macro) \<in> set methodMacros \<and> methods info methodName = Some syms
                 \<and> s \<in> set syms"
    by blast
  then show ?case
  proof cases
    case 1
    with inner have "macros s = Some macro
           \<or> (\<exists>name syms. (name, macro) \<in> set ms \<and> methods info name = Some syms \<and> s \<in> set syms)"
      unfolding bind_methods_bind_all by (rule bind_all_value)
    then show ?thesis
    proof
      assume "macros s = Some macro"
      then show ?thesis by simp
    next
      assume "\<exists>name syms. (name, macro) \<in> set ms \<and> methods info name = Some syms \<and> s \<in> set syms"
      then obtain name syms where "(name, macro) \<in> set ms" "methods info name = Some syms" "s \<in> set syms"
        by blast
      moreover have "(c, ms) \<in> set (a # tbl)" using a by simp
      ultimately show ?thesis using info by blast
    qed
  next
    case 2
    then obtain c' ms' info' mn' syms' where "(c', ms') \<in> set tbl" "interfaces idx c' = Some info'"
      "(mn', macro) \<in> set ms'" "methods info' mn' = Some syms'" "s \<in> set syms'"
      by blast
    moreover then have "(c', ms') \<in> set (a # tbl)" by simp
    ultimately show ?thesis by blast
  qed
qed

lemma bind_property_calls_table:
  assumes "bind_property_calls idx Map.empty tbl = Inr macros'"
    and "(className, methodMacros) \<in> set tbl" and "(methodName, macro) \<in> set methodMacros"
  shows "\<exists>info syms. interfaces idx className = Some info \<and> methods info methodName = Some syms \<and>
           (\<forall>s \<in> set syms.
              (\<forall>className' methodMacros' info' methodName' macro' syms'.
                 (className', methodMacros') \<in> set tbl \<and> interfaces idx className' = Some info'
                 \<and> (methodName', macro') \<in> set methodMacros' \<and> methods info' methodName' = Some syms'
                 \<and> s \<in> set syms' \<longrightarrow> macro' = macro)
              \<longrightarrow> macros' s = Some macro)"
proof -
  from bind_property_calls_Inr_present [OF assms(1,2)] assms(3)
  obtain info syms where info: "interfaces idx className = Some info"
    and syms: "methods info methodName = Some syms"
    by blast
  have "macros' s = Some macro"
    if "s \<in> set syms"
      and "\<forall>className' methodMacros' info' methodName' macro' syms'.
                 (className', methodMacros') \<in> set tbl \<and> interfaces idx className' = Some info'
                 \<and> (methodName', macro') \<in> set methodMacros' \<and> methods info' methodName' = Some syms'
                 \<and> s \<in> set syms' \<longrightarrow> macro' = macro" for s
  proof -
    from that(2) have "macro' = macro"
      if "(className', methodMacros') \<in> set tbl" "interfaces idx className' = Some info'"
        "(methodName', macro') \<in> set methodMacros'" "methods info' methodName' = Some syms'"
        "s \<in> set syms'" for className' methodMacros' info' methodName' macro' syms'
      using that by blast
    with assms(1,2) info assms(3) syms that(1) show ?thesis
      by (rule bind_property_calls_bound)
  qed
  with info syms show ?thesis by blast
qed

section \<open>The last entry that records a symbol decides\<close>

lemma unshared_apart:
  assumes "unshared lookup keys" and "k \<in> set keys" and "k' \<in> set keys" and "k \<noteq> k'"
    and "lookup k = Some syms" and "lookup k' = Some syms'" and "s \<in> set syms"
  shows "s \<notin> set syms'"
proof -
  from assms(1-4) have "case lookup k of None \<Rightarrow> True
         | Some syms \<Rightarrow> (case lookup k' of None \<Rightarrow> True | Some syms' \<Rightarrow> set syms \<inter> set syms' = {})"
    unfolding unshared_def by blast
  with assms(5,6) have "set syms \<inter> set syms' = {}" by simp
  with assms(7) show ?thesis by blast
qed

lemma bind_all_append:
  "bind_all lookup msg macros (xs @ ys) =
     (case bind_all lookup msg macros xs of
        Inl e \<Rightarrow> Inl e
      | Inr mid \<Rightarrow> bind_all lookup msg mid ys)"
  by (induction xs arbitrary: macros) (auto split: option.splits)

lemma bind_all_holds:
  assumes "bind_all lookup msg macros tbl = Inr macros'" and "macros s = Some macro"
    and "\<And>name' macro' syms'. (name', macro') \<in> set tbl \<Longrightarrow> lookup name' = Some syms' \<Longrightarrow>
           s \<in> set syms' \<Longrightarrow> macro' = macro"
  shows "macros' s = Some macro"
proof -
  from assms(2) have "macros s \<noteq> None" by simp
  with assms(1) have "macros' s \<noteq> None" by (rule bind_all_keeps)
  then obtain q where q: "macros' s = Some q" by blast
  with assms(1) have "macros s = Some q
      \<or> (\<exists>name syms. (name, q) \<in> set tbl \<and> lookup name = Some syms \<and> s \<in> set syms)"
    by (rule bind_all_value)
  with assms(2,3) have "q = macro" by auto
  with q show ?thesis by simp
qed

lemma bind_all_last_writer:
  assumes "bind_all lookup msg macros (pre @ (name, macro) # post) = Inr macros'"
    and "lookup name = Some syms" and "s \<in> set syms"
    and "\<And>name' macro' syms'. (name', macro') \<in> set post \<Longrightarrow> lookup name' = Some syms' \<Longrightarrow>
           s \<in> set syms' \<Longrightarrow> macro' = macro"
  shows "macros' s = Some macro"
proof -
  from assms(1) obtain mid where "bind_all lookup msg mid ((name, macro) # post) = Inr macros'"
    by (auto simp: bind_all_append split: sum.splits)
  with assms(2) have rest: "bind_all lookup msg (set_all mid syms macro) post = Inr macros'"
    by simp
  from assms(3) have "set_all mid syms macro s = Some macro" by (simp add: set_all_apply)
  with rest show ?thesis using assms(4) by (rule bind_all_holds)
qed

lemma bind_property_calls_append:
  "bind_property_calls idx macros (xs @ ys) =
     (case bind_property_calls idx macros xs of
        Inl e \<Rightarrow> Inl e
      | Inr mid \<Rightarrow> bind_property_calls idx mid ys)"
  by (induction xs arbitrary: macros) (auto split: option.splits sum.splits)

lemma bind_property_calls_holds:
  assumes "bind_property_calls idx macros tbl = Inr macros'" and "macros s = Some macro"
    and "\<And>c' ms' info' mn' macro' syms'. (c', ms') \<in> set tbl \<Longrightarrow> interfaces idx c' = Some info' \<Longrightarrow>
           (mn', macro') \<in> set ms' \<Longrightarrow> methods info' mn' = Some syms' \<Longrightarrow> s \<in> set syms'
           \<Longrightarrow> macro' = macro"
  shows "macros' s = Some macro"
proof -
  from assms(2) have "macros s \<noteq> None" by simp
  with assms(1) have "macros' s \<noteq> None" by (rule bind_property_calls_keeps)
  then obtain q where q: "macros' s = Some q" by blast
  with assms(1) have "macros s = Some q
           \<or> (\<exists>className methodMacros info methodName syms.
                 (className, methodMacros) \<in> set tbl \<and> interfaces idx className = Some info
                 \<and> (methodName, q) \<in> set methodMacros \<and> methods info methodName = Some syms
                 \<and> s \<in> set syms)"
    by (rule bind_property_calls_value)
  with assms(2,3) have "q = macro" by auto
  with q show ?thesis by simp
qed

lemma bind_property_calls_last_writer:
  assumes "bind_property_calls idx macros (pre @ (c, mpre @ (mn, macro) # mpost) # post) = Inr macros'"
    and "interfaces idx c = Some info" and "methods info mn = Some syms" and "s \<in> set syms"
    and "\<And>mn' macro' syms'. (mn', macro') \<in> set mpost \<Longrightarrow> methods info mn' = Some syms' \<Longrightarrow>
           s \<in> set syms' \<Longrightarrow> macro' = macro"
    and "\<And>c' ms' info' mn' macro' syms'. (c', ms') \<in> set post \<Longrightarrow> interfaces idx c' = Some info' \<Longrightarrow>
           (mn', macro') \<in> set ms' \<Longrightarrow> methods info' mn' = Some syms' \<Longrightarrow> s \<in> set syms'
           \<Longrightarrow> macro' = macro"
  shows "macros' s = Some macro"
proof -
  from assms(1) obtain mid where
    "bind_property_calls idx mid ((c, mpre @ (mn, macro) # mpost) # post) = Inr macros'"
    by (auto simp: bind_property_calls_append split: sum.splits)
  with assms(2) obtain mid2 where inner: "bind_methods c info mid (mpre @ (mn, macro) # mpost) = Inr mid2"
    and rest: "bind_property_calls idx mid2 post = Inr macros'"
    by (auto split: sum.splits)
  from inner assms(3,4,5) have "mid2 s = Some macro"
    unfolding bind_methods_bind_all by (rule bind_all_last_writer)
  with rest show ?thesis using assms(6) by (rule bind_property_calls_holds)
qed

lemma property_call_keys_member:
  "(c, ms) \<in> set tbl \<Longrightarrow> (mn, macro) \<in> set ms \<Longrightarrow> (c, mn) \<in> set (property_call_keys tbl)"
  unfolding property_call_keys_def by force

lemma bind_all_unshared:
  assumes "bind_all lookup msg Map.empty tbl = Inr macros'"
    and "distinct (map fst tbl)" and "unshared lookup (map fst tbl)"
    and "(name, macro) \<in> set tbl"
  shows "\<exists>syms. lookup name = Some syms \<and> (\<forall>s \<in> set syms. macros' s = Some macro)"
proof -
  from bind_all_table [OF assms(1,4)] obtain syms where syms: "lookup name = Some syms"
    and bound: "\<forall>s \<in> set syms.
              (\<forall>name' macro' syms'. (name', macro') \<in> set tbl \<and> lookup name' = Some syms' \<and> s \<in> set syms'
                 \<longrightarrow> macro' = macro)
              \<longrightarrow> macros' s = Some macro"
    by blast
  have "macro' = macro"
    if s: "s \<in> set syms" and e: "(name', macro') \<in> set tbl" and l: "lookup name' = Some syms'"
      and s': "s \<in> set syms'" for s name' macro' syms'
  proof (cases "name' = name")
    case True
    with assms(2,4) e show ?thesis by (auto dest: eq_key_imp_eq_value)
  next
    case False
    from assms(4) e have "name \<in> set (map fst tbl)" "name' \<in> set (map fst tbl)" by force+
    with assms(3) False syms l s have "s \<notin> set syms'"
      by (intro unshared_apart [of lookup "map fst tbl" name name' syms syms' s]) auto
    with s' show ?thesis by simp
  qed
  with bound have "\<forall>s \<in> set syms. macros' s = Some macro" by blast
  with syms show ?thesis by blast
qed

lemma bind_all_last_table:
  assumes "bind_all lookup msg Map.empty tbl = Inr macros'" and "tbl = pre @ (name, macro) # post"
  shows "\<exists>syms. lookup name = Some syms \<and>
           (\<forall>s \<in> set syms.
              (\<forall>name' macro' syms'. (name', macro') \<in> set post \<and> lookup name' = Some syms' \<and> s \<in> set syms'
                 \<longrightarrow> macro' = macro)
              \<longrightarrow> macros' s = Some macro)"
proof -
  from assms have "(name, macro) \<in> set tbl" by simp
  with assms(1) have "lookup name \<noteq> None" by (rule bind_all_Inr_present)
  then obtain syms where syms: "lookup name = Some syms" by blast
  have "macros' s = Some macro"
    if "s \<in> set syms"
      and "\<forall>name' macro' syms'. (name', macro') \<in> set post \<and> lookup name' = Some syms' \<and> s \<in> set syms'
                 \<longrightarrow> macro' = macro" for s
  proof -
    from that(2) have "macro' = macro"
      if "(name', macro') \<in> set post" "lookup name' = Some syms'" "s \<in> set syms'" for name' macro' syms'
      using that by blast
    with assms(1) [unfolded assms(2)] syms that(1) show ?thesis by (rule bind_all_last_writer)
  qed
  with syms show ?thesis by blast
qed

lemma scan_two_functions:
  "scan example_host (example_program two_functions []) example_checker ''node_modules''
     = Inr (empty_index\<lparr>functions := [''f'' \<mapsto> [101, 102], ''g'' \<mapsto> [103]]\<rparr>)"
  by (simp add: example_eval two_functions_def)

lemma new_two_functions:
  "\<exists>reg. new_MacroManager example_host two_functions_macros (example_program two_functions [])
     example_checker ''node_modules'' = Inr reg"
  by (simp add: example_eval two_functions_def two_functions_macros_def)

lemma bind_property_calls_unshared:
  assumes "bind_property_calls idx Map.empty tbl = Inr macros'"
    and "distinct (map fst tbl)" and "\<forall>(c, ms) \<in> set tbl. distinct (map fst ms)"
    and "unshared (method_list idx) (property_call_keys tbl)"
    and "(className, methodMacros) \<in> set tbl" and "(methodName, macro) \<in> set methodMacros"
  shows "\<exists>info syms. interfaces idx className = Some info \<and> methods info methodName = Some syms
           \<and> (\<forall>s \<in> set syms. macros' s = Some macro)"
proof -
  from bind_property_calls_table [OF assms(1,5,6)]
  obtain info syms where info: "interfaces idx className = Some info"
    and syms: "methods info methodName = Some syms"
    and bound: "\<forall>s \<in> set syms.
              (\<forall>className' methodMacros' info' methodName' macro' syms'.
                 (className', methodMacros') \<in> set tbl \<and> interfaces idx className' = Some info'
                 \<and> (methodName', macro') \<in> set methodMacros' \<and> methods info' methodName' = Some syms'
                 \<and> s \<in> set syms' \<longrightarrow> macro' = macro)
              \<longrightarrow> macros' s = Some macro"
    by blast
  have here: "method_list idx (className, methodName) = Some syms"
    using info syms by (simp add: method_list_def)
  have key: "(className, methodName) \<in> set (property_call_keys tbl)"
    using assms(5,6) by (rule property_call_keys_member)
  have "macro' = macro"
    if s: "s \<in> set syms" and e: "(c', ms') \<in> set tbl" and i': "interfaces idx c' = Some info'"
      and m': "(mn', macro') \<in> set ms'" and l': "methods info' mn' = Some syms'"
      and s': "s \<in> set syms'" for s c' ms' info' mn' macro' syms'
  proof (cases "(c', mn') = (className, methodName)")
    case True
    with assms(2,5) e have "ms' = methodMacros" by (auto dest: eq_key_imp_eq_value)
    moreover from assms(3,5) have "distinct (map fst methodMacros)" by blast
    ultimately show ?thesis using True m' assms(6) by (auto dest: eq_key_imp_eq_value)
  next
    case False
    have there: "method_list idx (c', mn') = Some syms'"
      using i' l' by (simp add: method_list_def)
    have key': "(c', mn') \<in> set (property_call_keys tbl)"
      using e m' by (rule property_call_keys_member)
    from False have "(className, methodName) \<noteq> (c', mn')" by blast
    with assms(4) key key' have "s \<notin> set syms'"
      using here there s by (rule unshared_apart)
    with s' show ?thesis by simp
  qed
  with bound have "\<forall>s \<in> set syms. macros' s = Some macro" by blast
  with info syms show ?thesis by blast
qed

lemma bind_property_calls_last_table:
  assumes "bind_property_calls idx Map.empty tbl = Inr macros'"
    and "tbl = pre @ (className, mpre @ (methodName, macro) # mpost) # post"
  shows "\<exists>info syms. interfaces idx className = Some info \<and> methods info methodName = Some syms \<and>
           (\<forall>s \<in> set syms.
              (\<forall>methodName' macro' syms'. (methodName', macro') \<in> set mpost
                 \<and> methods info methodName' = Some syms' \<and> s \<in> set syms' \<longrightarrow> macro' = macro)
              \<and> (\<forall>className' methodMacros' info' methodName' macro' syms'.
                 (className', methodMacros') \<in> set post \<and> interfaces idx className' = Some info'
                 \<and> (methodName', macro') \<in> set methodMacros' \<and> methods info' methodName' = Some syms'
                 \<and> s \<in> set syms' \<longrightarrow> macro' = macro)
              \<longrightarrow> macros' s = Some macro)"
proof -
  from assms(2) have e: "(className, mpre @ (methodName, macro) # mpost) \<in> set tbl"
    and m: "(methodName, macro) \<in> set (mpre @ (methodName, macro) # mpost)"
    by simp_all
  from bind_property_calls_Inr_present [OF assms(1) e] m
  obtain info syms where info: "interfaces idx className = Some info"
    and syms: "methods info methodName = Some syms"
    by blast
  have "macros' s = Some macro"
    if "s \<in> set syms"
      and "(\<forall>methodName' macro' syms'. (methodName', macro') \<in> set mpost
                 \<and> methods info methodName' = Some syms' \<and> s \<in> set syms' \<longrightarrow> macro' = macro)
              \<and> (\<forall>className' methodMacros' info' methodName' macro' syms'.
                 (className', methodMacros') \<in> set post \<and> interfaces idx className' = Some info'
                 \<and> (methodName', macro') \<in> set methodMacros' \<and> methods info' methodName' = Some syms'
                 \<and> s \<in> set syms' \<longrightarrow> macro' = macro)" for s
  proof -
    from that(2) have 1: "macro' = macro"
      if "(mn', macro') \<in> set mpost" "methods info mn' = Some syms'" "s \<in> set syms'"
      for mn' macro' syms'
      using that by blast
    from that(2) have 2: "macro' = macro"
      if "(c', ms') \<in> set post" "interfaces idx c' = Some info'" "(mn', macro') \<in> set ms'"
        "methods info' mn' = Some syms'" "s \<in> set syms'"
      for c' ms' info' mn' macro' syms'
      using that by blast
    from assms(1) [unfolded assms(2)] info syms that(1) 1 2 show ?thesis
      by (rule bind_property_calls_last_writer)
  qed
  with info syms show ?thesis by blast
qed

section \<open>C1: identifier and call macros\<close>

text \<open>
  C1. The keys of a macro table are the keys of an object, so they are distinct, and the
  symbols of a program are unshared. Then, after a successful construction, every name
  of the identifier-macro table has a list of symbols in the identifier Name Index and
  every symbol of the list is mapped to exactly the payload of the name; likewise for
  the call-macro table, the function Name Index and \<open>getCallMacro\<close>. On the code alone,
  whatever the symbols, the last entry that records a symbol decides: a symbol recorded
  under a name is mapped to the payload of the name when no later entry of the table
  records it with another payload. The index holds the symbol of every declared
  simple-name variable binding, and the type symbol of every declared function
  declaration, so that each overload of a function with a call macro is bound.
\<close>

theorem identifier_and_call_macros_bound:
  assumes "new_MacroManager host tables program typeChecker nodeModulesPath = Inr reg"
    and "scan host program typeChecker nodeModulesPath = Inr idx"
  shows
    "(distinct (map fst (IDENTIFIER_MACROS tables))
        \<and> unshared (identifiers idx) (map fst (IDENTIFIER_MACROS tables)) \<longrightarrow>
      (\<forall>name macro. (name, macro) \<in> set (IDENTIFIER_MACROS tables) \<longrightarrow>
         (\<exists>syms. identifiers idx name = Some syms
            \<and> (\<forall>s \<in> set syms. getIdentifierMacro reg s = Some macro))))
   \<and> (distinct (map fst (CALL_MACROS tables))
        \<and> unshared (functions idx) (map fst (CALL_MACROS tables)) \<longrightarrow>
      (\<forall>name macro. (name, macro) \<in> set (CALL_MACROS tables) \<longrightarrow>
         (\<exists>syms. functions idx name = Some syms
            \<and> (\<forall>s \<in> set syms. getCallMacro reg s = Some macro))))
   \<and> (\<forall>pre name macro post. IDENTIFIER_MACROS tables = pre @ (name, macro) # post \<longrightarrow>
        (\<exists>syms. identifiers idx name = Some syms \<and>
           (\<forall>s \<in> set syms.
              (\<forall>name' macro' syms'. (name', macro') \<in> set post
                   \<and> identifiers idx name' = Some syms' \<and> s \<in> set syms' \<longrightarrow> macro' = macro)
              \<longrightarrow> getIdentifierMacro reg s = Some macro)))
   \<and> (\<forall>pre name macro post. CALL_MACROS tables = pre @ (name, macro) # post \<longrightarrow>
        (\<exists>syms. functions idx name = Some syms \<and>
           (\<forall>s \<in> set syms.
              (\<forall>name' macro' syms'. (name', macro') \<in> set post
                   \<and> functions idx name' = Some syms' \<and> s \<in> set syms' \<longrightarrow> macro' = macro)
              \<longrightarrow> getCallMacro reg s = Some macro)))
   \<and> (\<forall>declarations name s.
         declared host program nodeModulesPath (VariableStatement declarations)
           \<and> VariableDeclaration (Identifier name) s \<in> set declarations \<longrightarrow>
         (\<exists>syms. identifiers idx name = Some syms \<and> s \<in> set syms))
   \<and> (\<forall>i name s.
         declared host program nodeModulesPath (FunctionDeclaration i (Some name) s) \<longrightarrow>
         (\<exists>syms. functions idx name = Some syms
            \<and> type_symbol (typeChecker (StatementNode (FunctionDeclaration i (Some name) s))) \<in> set syms))"
proof (intro conjI allI impI)
  note b = new_MacroManager_Inr(1) [OF assms, unfolded bind_identifiers_bind_all]
  fix name macro
  assume "distinct (map fst (IDENTIFIER_MACROS tables))
        \<and> unshared (identifiers idx) (map fst (IDENTIFIER_MACROS tables))"
    and "(name, macro) \<in> set (IDENTIFIER_MACROS tables)"
  then show "\<exists>syms. identifiers idx name = Some syms
            \<and> (\<forall>s \<in> set syms. getIdentifierMacro reg s = Some macro)"
    unfolding getIdentifierMacro_def using bind_all_unshared [OF b] by blast
next
  note b = new_MacroManager_Inr(2) [OF assms, unfolded bind_calls_bind_all]
  fix name macro
  assume "distinct (map fst (CALL_MACROS tables))
        \<and> unshared (functions idx) (map fst (CALL_MACROS tables))"
    and "(name, macro) \<in> set (CALL_MACROS tables)"
  then show "\<exists>syms. functions idx name = Some syms
            \<and> (\<forall>s \<in> set syms. getCallMacro reg s = Some macro)"
    unfolding getCallMacro_def using bind_all_unshared [OF b] by blast
next
  note b = new_MacroManager_Inr(1) [OF assms, unfolded bind_identifiers_bind_all]
  fix pre name macro post
  assume "IDENTIFIER_MACROS tables = pre @ (name, macro) # post"
  with b show "\<exists>syms. identifiers idx name = Some syms \<and>
           (\<forall>s \<in> set syms.
              (\<forall>name' macro' syms'. (name', macro') \<in> set post
                   \<and> identifiers idx name' = Some syms' \<and> s \<in> set syms' \<longrightarrow> macro' = macro)
              \<longrightarrow> getIdentifierMacro reg s = Some macro)"
    unfolding getIdentifierMacro_def by (rule bind_all_last_table)
next
  note b = new_MacroManager_Inr(2) [OF assms, unfolded bind_calls_bind_all]
  fix pre name macro post
  assume "CALL_MACROS tables = pre @ (name, macro) # post"
  with b show "\<exists>syms. functions idx name = Some syms \<and>
           (\<forall>s \<in> set syms.
              (\<forall>name' macro' syms'. (name', macro') \<in> set post
                   \<and> functions idx name' = Some syms' \<and> s \<in> set syms' \<longrightarrow> macro' = macro)
              \<longrightarrow> getCallMacro reg s = Some macro)"
    unfolding getCallMacro_def by (rule bind_all_last_table)
next
  fix declarations name s
  assume a: "declared host program nodeModulesPath (VariableStatement declarations)
           \<and> VariableDeclaration (Identifier name) s \<in> set declarations"
  then have "recorded typeChecker idx (VariableStatement declarations)"
    using declared_recorded [OF assms(2)] by blast
  with a have "declaration_recorded (identifiers idx) (VariableDeclaration (Identifier name) s)"
    by auto
  then show "\<exists>syms. identifiers idx name = Some syms \<and> s \<in> set syms" by simp
next
  fix i name s
  assume "declared host program nodeModulesPath (FunctionDeclaration i (Some name) s)"
  with assms(2) have "recorded typeChecker idx (FunctionDeclaration i (Some name) s)"
    by (rule declared_recorded)
  then show "\<exists>syms. functions idx name = Some syms
            \<and> type_symbol (typeChecker (StatementNode (FunctionDeclaration i (Some name) s))) \<in> set syms"
    by simp
qed

theorem identifier_and_call_macros_bound_witness:
  "getCallMacro (projr (new_MacroManager example_host two_functions_macros
       (example_program two_functions []) example_checker ''node_modules'')) 101 = Some 9
   \<and> getCallMacro (projr (new_MacroManager example_host two_functions_macros
       (example_program two_functions []) example_checker ''node_modules'')) 102 = Some 9
   \<and> getCallMacro (projr (new_MacroManager example_host two_functions_macros
       (example_program two_functions []) example_checker ''node_modules'')) 103 = Some 8"
proof -
  let ?new = "new_MacroManager example_host two_functions_macros
       (example_program two_functions []) example_checker ''node_modules''"
  let ?idx = "empty_index\<lparr>functions := [''f'' \<mapsto> [101, 102], ''g'' \<mapsto> [103]]\<rparr>"
  from new_two_functions have new: "?new = Inr (projr ?new)" by auto
  note t = identifier_and_call_macros_bound [OF new scan_two_functions]
  have keys: "distinct (map fst (CALL_MACROS two_functions_macros))
      \<and> unshared (functions ?idx) (map fst (CALL_MACROS two_functions_macros))"
    by (simp add: two_functions_macros_def no_macros_def unshared_def)
  have f: "(''f'', 9) \<in> set (CALL_MACROS two_functions_macros)"
    and g: "(''g'', 8) \<in> set (CALL_MACROS two_functions_macros)"
    by (simp_all add: two_functions_macros_def no_macros_def)
  from t keys have all: "\<forall>name macro. (name, macro) \<in> set (CALL_MACROS two_functions_macros) \<longrightarrow>
         (\<exists>syms. functions ?idx name = Some syms
            \<and> (\<forall>s \<in> set syms. getCallMacro (projr ?new) s = Some macro))"
    by blast
  from all f obtain fs where "functions ?idx ''f'' = Some fs"
    and "\<forall>s \<in> set fs. getCallMacro (projr ?new) s = Some 9"
    by blast
  moreover from all g obtain gs where "functions ?idx ''g'' = Some gs"
    and "\<forall>s \<in> set gs. getCallMacro (projr ?new) s = Some 8"
    by blast
  ultimately show ?thesis by auto
qed

section \<open>The first unbound entry is the one named\<close>

lemma bound_in_filter:
  "bound_in lookup tbl \<Longrightarrow> filter (\<lambda>name. lookup name = None) (map fst tbl) = []"
  unfolding bound_in_def by (induction tbl) auto

lemma methods_bound_targets:
  "methods_bound idx tbl \<Longrightarrow> unbound_method_targets idx tbl = []"
  unfolding methods_bound_def unbound_method_targets_def
  by (induction tbl) (auto split: option.splits simp: bound_in_filter)

lemma unbound_method_targets_append:
  "unbound_method_targets idx (xs @ ys) = unbound_method_targets idx xs @ unbound_method_targets idx ys"
  by (simp add: unbound_method_targets_def)

lemma first_absent_identifier:
  assumes "IDENTIFIER_MACROS tables = pre @ (name, macro) # post"
    and "bound_in (identifiers idx) pre" and "identifiers idx name = None"
  shows "\<exists>others. unbound_targets idx tables
           = (''(MacroManager) No identifier found for '' @ name) # others"
  using assms by (simp add: unbound_targets_def bound_in_filter)

lemma first_absent_function:
  assumes "bound_in (identifiers idx) (IDENTIFIER_MACROS tables)"
    and "CALL_MACROS tables = pre @ (name, macro) # post"
    and "bound_in (functions idx) pre" and "functions idx name = None"
  shows "\<exists>others. unbound_targets idx tables
           = (''(MacroManager) No function found for '' @ name) # others"
  using assms by (simp add: unbound_targets_def bound_in_filter)

lemma first_absent_constructor:
  assumes "bound_in (identifiers idx) (IDENTIFIER_MACROS tables)"
    and "bound_in (functions idx) (CALL_MACROS tables)"
    and "CONSTRUCTOR_MACROS tables = pre @ (name, macro) # post"
    and "bound_in (interfaces idx) pre" and "interfaces idx name = None"
  shows "\<exists>others. unbound_targets idx tables
           = (''(MacroManager) No interface found for '' @ name) # others"
  using assms by (simp add: unbound_targets_def bound_in_filter)

lemma first_absent_interface:
  assumes "bound_in (identifiers idx) (IDENTIFIER_MACROS tables)"
    and "bound_in (functions idx) (CALL_MACROS tables)"
    and "bound_in (interfaces idx) (CONSTRUCTOR_MACROS tables)"
    and "PROPERTY_CALL_MACROS tables = pre @ (name, methodMacros) # post"
    and "methods_bound idx pre" and "interfaces idx name = None"
  shows "\<exists>others. unbound_targets idx tables
           = (''(MacroManager) No interface found for '' @ name) # others"
proof -
  have "unbound_method_targets idx (pre @ (name, methodMacros) # post)
      = (''(MacroManager) No interface found for '' @ name) # unbound_method_targets idx post"
    using assms(5,6) methods_bound_targets [of idx pre]
    by (simp add: unbound_method_targets_append) (simp add: unbound_method_targets_def)
  with assms(1-4) show ?thesis by (simp add: unbound_targets_def bound_in_filter)
qed

lemma first_absent_method:
  assumes "bound_in (identifiers idx) (IDENTIFIER_MACROS tables)"
    and "bound_in (functions idx) (CALL_MACROS tables)"
    and "bound_in (interfaces idx) (CONSTRUCTOR_MACROS tables)"
    and "PROPERTY_CALL_MACROS tables = pre @ (name, mpre @ (methodName, macro) # mpost) # post"
    and "methods_bound idx pre" and "interfaces idx name = Some info"
    and "bound_in (methods info) mpre" and "methods info methodName = None"
  shows "\<exists>others. unbound_targets idx tables
           = (''(MacroManager) No method found for '' @ name @ ''.'' @ methodName) # others"
proof -
  have "\<exists>others. unbound_method_targets idx (pre @ (name, mpre @ (methodName, macro) # mpost) # post)
      = (''(MacroManager) No method found for '' @ name @ ''.'' @ methodName) # others"
    using assms(5-8) methods_bound_targets [of idx pre] bound_in_filter [of "methods info" mpre]
    by (simp add: unbound_method_targets_append) (simp add: unbound_method_targets_def)
  with assms(1-4) show ?thesis by (auto simp add: unbound_targets_def bound_in_filter)
qed

section \<open>C2: an unbound target aborts construction\<close>

text \<open>
  C2, as amended. When the scan has produced the Name Index and some entry of a macro
  table has no target in it, construction throws a \<open>ProjectError\<close> and produces no
  registry; the message is that of the first unbound target in the order of processing,
  the head of \<open>unbound_targets\<close>. Every unbound entry, of each of the five kinds, has its
  message in that list, and with no unbound entry construction succeeds. So the message
  names the target of an unbound entry whenever the entries processed before it are all
  bound: for an identifier, a function, an interface of the constructor table, an
  interface of the property-call table and a method of an interface.
\<close>

theorem first_unbound_target_raised:
  assumes "scan host program typeChecker nodeModulesPath = Inr idx"
  shows "(\<forall>m others. unbound_targets idx tables = m # others \<longrightarrow>
            new_MacroManager host tables program typeChecker nodeModulesPath = Inl (ProjectError m))
    \<and> (unbound_targets idx tables = [] \<longrightarrow>
          (\<exists>reg. new_MacroManager host tables program typeChecker nodeModulesPath = Inr reg))
    \<and> (\<forall>name macro. (name, macro) \<in> set (IDENTIFIER_MACROS tables) \<and> identifiers idx name = None \<longrightarrow>
          ''(MacroManager) No identifier found for '' @ name \<in> set (unbound_targets idx tables))
    \<and> (\<forall>name macro. (name, macro) \<in> set (CALL_MACROS tables) \<and> functions idx name = None \<longrightarrow>
          ''(MacroManager) No function found for '' @ name \<in> set (unbound_targets idx tables))
    \<and> (\<forall>name macro. (name, macro) \<in> set (CONSTRUCTOR_MACROS tables) \<and> interfaces idx name = None \<longrightarrow>
          ''(MacroManager) No interface found for '' @ name \<in> set (unbound_targets idx tables))
    \<and> (\<forall>name methodMacros. (name, methodMacros) \<in> set (PROPERTY_CALL_MACROS tables)
            \<and> interfaces idx name = None \<longrightarrow>
          ''(MacroManager) No interface found for '' @ name \<in> set (unbound_targets idx tables))
    \<and> (\<forall>name methodMacros info methodName macro.
            (name, methodMacros) \<in> set (PROPERTY_CALL_MACROS tables) \<and> interfaces idx name = Some info
            \<and> (methodName, macro) \<in> set methodMacros \<and> methods info methodName = None \<longrightarrow>
          ''(MacroManager) No method found for '' @ name @ ''.'' @ methodName
            \<in> set (unbound_targets idx tables))
    \<and> (\<forall>m. m \<in> set (unbound_targets idx tables) \<longrightarrow>
          new_MacroManager host tables program typeChecker nodeModulesPath
            = Inl (ProjectError (hd (unbound_targets idx tables))))
    \<and> (\<forall>pre name macro post.
          IDENTIFIER_MACROS tables = pre @ (name, macro) # post
            \<and> bound_in (identifiers idx) pre \<and> identifiers idx name = None \<longrightarrow>
          new_MacroManager host tables program typeChecker nodeModulesPath
            = Inl (ProjectError (''(MacroManager) No identifier found for '' @ name)))
    \<and> (\<forall>pre name macro post.
          bound_in (identifiers idx) (IDENTIFIER_MACROS tables)
            \<and> CALL_MACROS tables = pre @ (name, macro) # post
            \<and> bound_in (functions idx) pre \<and> functions idx name = None \<longrightarrow>
          new_MacroManager host tables program typeChecker nodeModulesPath
            = Inl (ProjectError (''(MacroManager) No function found for '' @ name)))
    \<and> (\<forall>pre name macro post.
          bound_in (identifiers idx) (IDENTIFIER_MACROS tables)
            \<and> bound_in (functions idx) (CALL_MACROS tables)
            \<and> CONSTRUCTOR_MACROS tables = pre @ (name, macro) # post
            \<and> bound_in (interfaces idx) pre \<and> interfaces idx name = None \<longrightarrow>
          new_MacroManager host tables program typeChecker nodeModulesPath
            = Inl (ProjectError (''(MacroManager) No interface found for '' @ name)))
    \<and> (\<forall>pre name methodMacros post.
          bound_in (identifiers idx) (IDENTIFIER_MACROS tables)
            \<and> bound_in (functions idx) (CALL_MACROS tables)
            \<and> bound_in (interfaces idx) (CONSTRUCTOR_MACROS tables)
            \<and> PROPERTY_CALL_MACROS tables = pre @ (name, methodMacros) # post
            \<and> methods_bound idx pre \<and> interfaces idx name = None \<longrightarrow>
          new_MacroManager host tables program typeChecker nodeModulesPath
            = Inl (ProjectError (''(MacroManager) No interface found for '' @ name)))
    \<and> (\<forall>pre name mpre methodName macro mpost post info.
          bound_in (identifiers idx) (IDENTIFIER_MACROS tables)
            \<and> bound_in (functions idx) (CALL_MACROS tables)
            \<and> bound_in (interfaces idx) (CONSTRUCTOR_MACROS tables)
            \<and> PROPERTY_CALL_MACROS tables = pre @ (name, mpre @ (methodName, macro) # mpost) # post
            \<and> methods_bound idx pre \<and> interfaces idx name = Some info
            \<and> bound_in (methods info) mpre \<and> methods info methodName = None \<longrightarrow>
          new_MacroManager host tables program typeChecker nodeModulesPath
            = Inl (ProjectError (''(MacroManager) No method found for '' @ name @ ''.'' @ methodName)))"
proof -
  have new: "new_MacroManager host tables program typeChecker nodeModulesPath = bind idx tables"
    using assms by (simp add: new_MacroManager_def)
  have head: "bind idx tables = Inl (ProjectError m)"
    if "\<exists>others. unbound_targets idx tables = m # others" for m
  proof -
    from that obtain others where "unbound_targets idx tables = m # others" ..
    then show ?thesis by (rule bind_first_unbound)
  qed
  have 1: "\<forall>m others. unbound_targets idx tables = m # others \<longrightarrow> bind idx tables = Inl (ProjectError m)"
    by (intro allI impI, rule bind_first_unbound)
  have 2: "unbound_targets idx tables = [] \<longrightarrow> (\<exists>reg. bind idx tables = Inr reg)"
    by (intro impI, rule bind_none_unbound)
  have 3: "\<forall>name macro. (name, macro) \<in> set (IDENTIFIER_MACROS tables) \<and> identifiers idx name = None \<longrightarrow>
          ''(MacroManager) No identifier found for '' @ name \<in> set (unbound_targets idx tables)"
    by (intro allI impI, elim conjE, rule in_unbound_targets(1); assumption)
  have 4: "\<forall>name macro. (name, macro) \<in> set (CALL_MACROS tables) \<and> functions idx name = None \<longrightarrow>
          ''(MacroManager) No function found for '' @ name \<in> set (unbound_targets idx tables)"
    by (intro allI impI, elim conjE, rule in_unbound_targets(2); assumption)
  have 5: "\<forall>name macro. (name, macro) \<in> set (CONSTRUCTOR_MACROS tables) \<and> interfaces idx name = None \<longrightarrow>
          ''(MacroManager) No interface found for '' @ name \<in> set (unbound_targets idx tables)"
    by (intro allI impI, elim conjE, rule in_unbound_targets(3); assumption)
  have 6: "\<forall>name methodMacros. (name, methodMacros) \<in> set (PROPERTY_CALL_MACROS tables)
            \<and> interfaces idx name = None \<longrightarrow>
          ''(MacroManager) No interface found for '' @ name \<in> set (unbound_targets idx tables)"
    by (intro allI impI, elim conjE, rule in_unbound_targets(4); assumption)
  have 7: "\<forall>name methodMacros info methodName macro.
            (name, methodMacros) \<in> set (PROPERTY_CALL_MACROS tables) \<and> interfaces idx name = Some info
            \<and> (methodName, macro) \<in> set methodMacros \<and> methods info methodName = None \<longrightarrow>
          ''(MacroManager) No method found for '' @ name @ ''.'' @ methodName
            \<in> set (unbound_targets idx tables)"
    by (intro allI impI, elim conjE, rule in_unbound_targets(5); assumption)
  have 8: "\<forall>m. m \<in> set (unbound_targets idx tables) \<longrightarrow>
          bind idx tables = Inl (ProjectError (hd (unbound_targets idx tables)))"
  proof (intro allI impI)
    fix m assume "m \<in> set (unbound_targets idx tables)"
    then obtain h t where "unbound_targets idx tables = h # t"
      by (cases "unbound_targets idx tables") auto
    then show "bind idx tables = Inl (ProjectError (hd (unbound_targets idx tables)))"
      using bind_first_unbound [of idx tables h t] by simp
  qed
  have 9: "\<forall>pre name macro post.
          IDENTIFIER_MACROS tables = pre @ (name, macro) # post
            \<and> bound_in (identifiers idx) pre \<and> identifiers idx name = None \<longrightarrow>
          bind idx tables = Inl (ProjectError (''(MacroManager) No identifier found for '' @ name))"
    by (intro allI impI head, elim conjE, rule first_absent_identifier)
  have 10: "\<forall>pre name macro post.
          bound_in (identifiers idx) (IDENTIFIER_MACROS tables)
            \<and> CALL_MACROS tables = pre @ (name, macro) # post
            \<and> bound_in (functions idx) pre \<and> functions idx name = None \<longrightarrow>
          bind idx tables = Inl (ProjectError (''(MacroManager) No function found for '' @ name))"
    by (intro allI impI head, elim conjE, rule first_absent_function)
  have 11: "\<forall>pre name macro post.
          bound_in (identifiers idx) (IDENTIFIER_MACROS tables)
            \<and> bound_in (functions idx) (CALL_MACROS tables)
            \<and> CONSTRUCTOR_MACROS tables = pre @ (name, macro) # post
            \<and> bound_in (interfaces idx) pre \<and> interfaces idx name = None \<longrightarrow>
          bind idx tables = Inl (ProjectError (''(MacroManager) No interface found for '' @ name))"
    by (intro allI impI head, elim conjE, rule first_absent_constructor)
  have 12: "\<forall>pre name methodMacros post.
          bound_in (identifiers idx) (IDENTIFIER_MACROS tables)
            \<and> bound_in (functions idx) (CALL_MACROS tables)
            \<and> bound_in (interfaces idx) (CONSTRUCTOR_MACROS tables)
            \<and> PROPERTY_CALL_MACROS tables = pre @ (name, methodMacros) # post
            \<and> methods_bound idx pre \<and> interfaces idx name = None \<longrightarrow>
          bind idx tables = Inl (ProjectError (''(MacroManager) No interface found for '' @ name))"
    by (intro allI impI head, elim conjE, rule first_absent_interface)
  have 13: "\<forall>pre name mpre methodName macro mpost post info.
          bound_in (identifiers idx) (IDENTIFIER_MACROS tables)
            \<and> bound_in (functions idx) (CALL_MACROS tables)
            \<and> bound_in (interfaces idx) (CONSTRUCTOR_MACROS tables)
            \<and> PROPERTY_CALL_MACROS tables = pre @ (name, mpre @ (methodName, macro) # mpost) # post
            \<and> methods_bound idx pre \<and> interfaces idx name = Some info
            \<and> bound_in (methods info) mpre \<and> methods info methodName = None \<longrightarrow>
          bind idx tables
            = Inl (ProjectError (''(MacroManager) No method found for '' @ name @ ''.'' @ methodName))"
    by (intro allI impI head, elim conjE, rule first_absent_method)
  from 1 2 3 4 5 6 7 8 9 10 11 12 13 show ?thesis unfolding new by (intro conjI)
qed

theorem first_unbound_target_raised_witness:
  "new_MacroManager example_host two_unbound (example_program [] []) example_checker ''node_modules''
     = Inl (ProjectError ''(MacroManager) No identifier found for x'')
   \<and> ''(MacroManager) No identifier found for y'' \<in> set (unbound_targets empty_index two_unbound)
   \<and> hd (unbound_targets empty_index two_unbound) = ''(MacroManager) No identifier found for x''"
proof -
  have u: "unbound_targets empty_index two_unbound =
    [''(MacroManager) No identifier found for x'', ''(MacroManager) No identifier found for y'']"
    by (simp add: unbound_targets_def unbound_method_targets_def two_unbound_def no_macros_def
        empty_index_def)
  have y: "(''y'', 2) \<in> set (IDENTIFIER_MACROS two_unbound) \<and> identifiers empty_index ''y'' = None"
    by (simp add: two_unbound_def no_macros_def empty_index_def)
  have x: "IDENTIFIER_MACROS two_unbound = [] @ (''x'', 1) # [(''y'', 2)]
      \<and> bound_in (identifiers empty_index) ([] :: (string \<times> nat) list)
      \<and> identifiers empty_index ''x'' = None"
    by (simp add: two_unbound_def no_macros_def empty_index_def bound_in_def)
  note t = first_unbound_target_raised [OF scan_nothing, of two_unbound]
  note entry = t [THEN conjunct2, THEN conjunct2, THEN conjunct1, rule_format]
  note any = t [THEN conjunct2, THEN conjunct2, THEN conjunct2, THEN conjunct2, THEN conjunct2,
      THEN conjunct2, THEN conjunct2, THEN conjunct1, rule_format]
  note first = t [THEN conjunct2, THEN conjunct2, THEN conjunct2, THEN conjunct2, THEN conjunct2,
      THEN conjunct2, THEN conjunct2, THEN conjunct2, THEN conjunct1, rule_format]
  from x have 1: "new_MacroManager example_host two_unbound (example_program [] []) example_checker
        ''node_modules'' = Inl (ProjectError (''(MacroManager) No identifier found for '' @ ''x''))"
    by (rule first)
  from y have 2: "''(MacroManager) No identifier found for '' @ ''y''
      \<in> set (unbound_targets empty_index two_unbound)"
    by (rule entry)
  then have 3: "new_MacroManager example_host two_unbound (example_program [] []) example_checker
        ''node_modules'' = Inl (ProjectError (hd (unbound_targets empty_index two_unbound)))"
    by (rule any)
  from 1 2 3 show ?thesis by simp
qed

text \<open>
  C2 as stated fails when two entries are unbound: with identifier macros for
  \<open>x\<close> and \<open>y\<close> and nothing declared, \<open>y\<close> is absent from the Name Index, yet the error
  raised names \<open>x\<close>, not \<open>y\<close>.
\<close>

theorem later_unbound_target_not_named:
  "scan example_host (example_program [] []) example_checker ''node_modules'' = Inr empty_index
   \<and> (''y'', 2) \<in> set (IDENTIFIER_MACROS two_unbound)
   \<and> identifiers empty_index ''y'' = None
   \<and> new_MacroManager example_host two_unbound (example_program [] []) example_checker ''node_modules''
       = Inl (ProjectError ''(MacroManager) No identifier found for x'')
   \<and> ''(MacroManager) No identifier found for x'' \<noteq> ''(MacroManager) No identifier found for y''"
  by (simp add: example_eval two_unbound_def)

section \<open>C3: property-call macros\<close>

text \<open>
  C3. The keys of the property-call-macro table, and of the methods under each of its
  interfaces, are the keys of objects, so they are distinct, and the symbols of a program
  are unshared. Then, after a successful construction, every interface name and method
  name of the table has a list of symbols in the method mapping of the interface entry,
  and every symbol of the list is mapped to the payload of the pair. On the code alone,
  whatever the symbols, the last entry that records a symbol decides: a symbol of the
  list is mapped to the payload of the pair when no later method of the same interface
  and no method of a later interface of the table records it with another payload. The
  list holds the type symbol of every simple-name method signature of that name in every
  declared interface declaration of that name, so overloads and merged declarations all
  contribute: a method declared on two merged declarations has both symbols bound.
\<close>

theorem property_call_macros_bound:
  assumes "new_MacroManager host tables program typeChecker nodeModulesPath = Inr reg"
    and "scan host program typeChecker nodeModulesPath = Inr idx"
  shows
    "(distinct (map fst (PROPERTY_CALL_MACROS tables))
        \<and> (\<forall>(className, methodMacros) \<in> set (PROPERTY_CALL_MACROS tables). distinct (map fst methodMacros))
        \<and> unshared (method_list idx) (property_call_keys (PROPERTY_CALL_MACROS tables)) \<longrightarrow>
      (\<forall>className methodMacros methodName macro.
         (className, methodMacros) \<in> set (PROPERTY_CALL_MACROS tables)
           \<and> (methodName, macro) \<in> set methodMacros \<longrightarrow>
         (\<exists>info syms. interfaces idx className = Some info \<and> methods info methodName = Some syms
            \<and> (\<forall>s \<in> set syms. getPropertyCallMacro reg s = Some macro))))
   \<and> (\<forall>pre className mpre methodName macro mpost post.
         PROPERTY_CALL_MACROS tables
           = pre @ (className, mpre @ (methodName, macro) # mpost) # post \<longrightarrow>
         (\<exists>info syms. interfaces idx className = Some info \<and> methods info methodName = Some syms \<and>
            (\<forall>s \<in> set syms.
               (\<forall>methodName' macro' syms'. (methodName', macro') \<in> set mpost
                  \<and> methods info methodName' = Some syms' \<and> s \<in> set syms' \<longrightarrow> macro' = macro)
               \<and> (\<forall>className' methodMacros' info' methodName' macro' syms'.
                  (className', methodMacros') \<in> set post \<and> interfaces idx className' = Some info'
                  \<and> (methodName', macro') \<in> set methodMacros' \<and> methods info' methodName' = Some syms'
                  \<and> s \<in> set syms' \<longrightarrow> macro' = macro)
               \<longrightarrow> getPropertyCallMacro reg s = Some macro)))
   \<and> (\<forall>i className members j methodName.
         declared host program nodeModulesPath (InterfaceDeclaration i className members)
           \<and> MethodSignature j (Identifier methodName) \<in> set members \<longrightarrow>
         (\<exists>info syms. interfaces idx className = Some info \<and> methods info methodName = Some syms
            \<and> type_symbol (typeChecker (MemberNode (MethodSignature j (Identifier methodName))))
                 \<in> set syms))"
proof (intro conjI allI impI)
  note b = new_MacroManager_Inr(4) [OF assms]
  fix className methodMacros methodName macro
  assume k: "distinct (map fst (PROPERTY_CALL_MACROS tables))
        \<and> (\<forall>(className, methodMacros) \<in> set (PROPERTY_CALL_MACROS tables). distinct (map fst methodMacros))
        \<and> unshared (method_list idx) (property_call_keys (PROPERTY_CALL_MACROS tables))"
    and e: "(className, methodMacros) \<in> set (PROPERTY_CALL_MACROS tables)
           \<and> (methodName, macro) \<in> set methodMacros"
  from k have k1: "distinct (map fst (PROPERTY_CALL_MACROS tables))"
    and k2: "\<forall>(className, methodMacros) \<in> set (PROPERTY_CALL_MACROS tables). distinct (map fst methodMacros)"
    and k3: "unshared (method_list idx) (property_call_keys (PROPERTY_CALL_MACROS tables))"
    by simp_all
  from e have e1: "(className, methodMacros) \<in> set (PROPERTY_CALL_MACROS tables)"
    and e2: "(methodName, macro) \<in> set methodMacros"
    by simp_all
  from b k1 k2 k3 e1 e2
  show "\<exists>info syms. interfaces idx className = Some info \<and> methods info methodName = Some syms
            \<and> (\<forall>s \<in> set syms. getPropertyCallMacro reg s = Some macro)"
    unfolding getPropertyCallMacro_def by (rule bind_property_calls_unshared)
next
  note b = new_MacroManager_Inr(4) [OF assms]
  fix pre className mpre methodName macro mpost post
  assume "PROPERTY_CALL_MACROS tables
           = pre @ (className, mpre @ (methodName, macro) # mpost) # post"
  with b show "\<exists>info syms. interfaces idx className = Some info \<and> methods info methodName = Some syms \<and>
            (\<forall>s \<in> set syms.
               (\<forall>methodName' macro' syms'. (methodName', macro') \<in> set mpost
                  \<and> methods info methodName' = Some syms' \<and> s \<in> set syms' \<longrightarrow> macro' = macro)
               \<and> (\<forall>className' methodMacros' info' methodName' macro' syms'.
                  (className', methodMacros') \<in> set post \<and> interfaces idx className' = Some info'
                  \<and> (methodName', macro') \<in> set methodMacros' \<and> methods info' methodName' = Some syms'
                  \<and> s \<in> set syms' \<longrightarrow> macro' = macro)
               \<longrightarrow> getPropertyCallMacro reg s = Some macro)"
    unfolding getPropertyCallMacro_def by (rule bind_property_calls_last_table)
next
  fix i className members j methodName
  assume a: "declared host program nodeModulesPath (InterfaceDeclaration i className members)
           \<and> MethodSignature j (Identifier methodName) \<in> set members"
  then have "recorded typeChecker idx (InterfaceDeclaration i className members)"
    using declared_recorded [OF assms(2)] by blast
  then obtain info where info: "interfaces idx className = Some info"
    and m: "\<forall>m \<in> set members. member_recorded typeChecker info m"
    by auto
  from m a have "member_recorded typeChecker info (MethodSignature j (Identifier methodName))"
    by blast
  with info show "\<exists>info syms. interfaces idx className = Some info \<and> methods info methodName = Some syms
            \<and> type_symbol (typeChecker (MemberNode (MethodSignature j (Identifier methodName))))
                 \<in> set syms"
    by simp
qed

theorem property_call_macros_bound_witness:
  "getPropertyCallMacro (projr (new_MacroManager example_host push_macros
       (example_program (fst merged_push) (snd merged_push)) example_checker ''node_modules'')) 311
     = Some 1
   \<and> getPropertyCallMacro (projr (new_MacroManager example_host push_macros
       (example_program (fst merged_push) (snd merged_push)) example_checker ''node_modules'')) 312
     = Some 1"
proof -
  let ?new = "new_MacroManager example_host push_macros
       (example_program (fst merged_push) (snd merged_push)) example_checker ''node_modules''"
  let ?idx = "empty_index\<lparr>interfaces :=
       [''Array'' \<mapsto> \<lparr>symbols = [201, 202], constructors = [],
          methods = [''push'' \<mapsto> [311, 312]]\<rparr>]\<rparr>"
  from new_merged_push have new: "?new = Inr (projr ?new)" by auto
  note t = property_call_macros_bound [OF new scan_merged_push]
  have keys: "distinct (map fst (PROPERTY_CALL_MACROS push_macros))
        \<and> (\<forall>(className, methodMacros) \<in> set (PROPERTY_CALL_MACROS push_macros). distinct (map fst methodMacros))
        \<and> unshared (method_list ?idx) (property_call_keys (PROPERTY_CALL_MACROS push_macros))"
    by (simp add: push_macros_def no_macros_def unshared_def property_call_keys_def)
  have entry: "(''Array'', [(''push'', 1)]) \<in> set (PROPERTY_CALL_MACROS push_macros)
      \<and> (''push'', 1) \<in> set [(''push'', 1::nat)]"
    by (simp add: push_macros_def no_macros_def)
  from t keys have "\<forall>className methodMacros methodName macro.
         (className, methodMacros) \<in> set (PROPERTY_CALL_MACROS push_macros)
           \<and> (methodName, macro) \<in> set methodMacros \<longrightarrow>
         (\<exists>info syms. interfaces ?idx className = Some info \<and> methods info methodName = Some syms
            \<and> (\<forall>s \<in> set syms. getPropertyCallMacro (projr ?new) s = Some macro))"
    by blast
  with entry obtain info syms where "interfaces ?idx ''Array'' = Some info"
    and "methods info ''push'' = Some syms"
    and "\<forall>s \<in> set syms. getPropertyCallMacro (projr ?new) s = Some 1"
    by blast
  then show ?thesis by auto
qed

section \<open>C4: constructor macros\<close>

text \<open>
  C4. The keys of the constructor-macro table are distinct and the symbols of a program
  are unshared. Then, after a successful construction, every interface name of the table
  has an entry in the interface Name Index and every symbol of the entry's constructor
  list is mapped to the payload of the name. On the code alone, whatever the symbols,
  the last entry that records a symbol decides: a symbol of the list is mapped to the
  payload of the name when no later entry of the table records it with another payload.
  The constructor list holds the symbol of every construct signature of every declared
  interface declaration of that name, so merged declarations all contribute.
\<close>

theorem constructor_macros_bound:
  assumes "new_MacroManager host tables program typeChecker nodeModulesPath = Inr reg"
    and "scan host program typeChecker nodeModulesPath = Inr idx"
  shows
    "(distinct (map fst (CONSTRUCTOR_MACROS tables))
        \<and> unshared (constructor_list idx) (map fst (CONSTRUCTOR_MACROS tables)) \<longrightarrow>
      (\<forall>className macro. (className, macro) \<in> set (CONSTRUCTOR_MACROS tables) \<longrightarrow>
         (\<exists>info. interfaces idx className = Some info
            \<and> (\<forall>s \<in> set (constructors info). getConstructorMacro reg s = Some macro))))
   \<and> (\<forall>pre className macro post.
         CONSTRUCTOR_MACROS tables = pre @ (className, macro) # post \<longrightarrow>
         (\<exists>info. interfaces idx className = Some info \<and>
            (\<forall>s \<in> set (constructors info).
               (\<forall>className' macro' info'. (className', macro') \<in> set post
                    \<and> interfaces idx className' = Some info' \<and> s \<in> set (constructors info')
                    \<longrightarrow> macro' = macro)
               \<longrightarrow> getConstructorMacro reg s = Some macro)))
   \<and> (\<forall>i className members s.
         declared host program nodeModulesPath (InterfaceDeclaration i className members)
           \<and> ConstructSignatureDeclaration s \<in> set members \<longrightarrow>
         (\<exists>info. interfaces idx className = Some info \<and> s \<in> set (constructors info)))"
proof (intro conjI allI impI)
  have b: "bind_all (constructor_list idx) (\<lambda>n. ''(MacroManager) No interface found for '' @ n)
      Map.empty (CONSTRUCTOR_MACROS tables) = Inr (constructorMacros reg)"
    using new_MacroManager_Inr(3) [OF assms]
    unfolding bind_constructors_bind_all constructor_list_def .
  fix className macro
  assume "distinct (map fst (CONSTRUCTOR_MACROS tables))
        \<and> unshared (constructor_list idx) (map fst (CONSTRUCTOR_MACROS tables))"
    and "(className, macro) \<in> set (CONSTRUCTOR_MACROS tables)"
  with bind_all_unshared [OF b] have "\<exists>syms. constructor_list idx className = Some syms
      \<and> (\<forall>s \<in> set syms. constructorMacros reg s = Some macro)"
    by blast
  then show "\<exists>info. interfaces idx className = Some info
            \<and> (\<forall>s \<in> set (constructors info). getConstructorMacro reg s = Some macro)"
    by (auto simp: constructor_list_def getConstructorMacro_def)
next
  have b: "bind_all (constructor_list idx) (\<lambda>n. ''(MacroManager) No interface found for '' @ n)
      Map.empty (CONSTRUCTOR_MACROS tables) = Inr (constructorMacros reg)"
    using new_MacroManager_Inr(3) [OF assms]
    unfolding bind_constructors_bind_all constructor_list_def .
  fix pre className macro post
  assume "CONSTRUCTOR_MACROS tables = pre @ (className, macro) # post"
  with b have "\<exists>syms. constructor_list idx className = Some syms \<and>
           (\<forall>s \<in> set syms.
              (\<forall>name' macro' syms'. (name', macro') \<in> set post
                 \<and> constructor_list idx name' = Some syms' \<and> s \<in> set syms' \<longrightarrow> macro' = macro)
              \<longrightarrow> constructorMacros reg s = Some macro)"
    by (rule bind_all_last_table)
  then obtain info where info: "interfaces idx className = Some info"
    and bound: "\<forall>s \<in> set (constructors info).
              (\<forall>name' macro' syms'. (name', macro') \<in> set post
                 \<and> constructor_list idx name' = Some syms' \<and> s \<in> set syms' \<longrightarrow> macro' = macro)
              \<longrightarrow> constructorMacros reg s = Some macro"
    by (auto simp: constructor_list_def)
  have "getConstructorMacro reg s = Some macro"
    if s: "s \<in> set (constructors info)"
      and later: "\<forall>className' macro' info'. (className', macro') \<in> set post
                    \<and> interfaces idx className' = Some info' \<and> s \<in> set (constructors info')
                    \<longrightarrow> macro' = macro" for s
  proof -
    from later have "\<forall>name' macro' syms'. (name', macro') \<in> set post
                 \<and> constructor_list idx name' = Some syms' \<and> s \<in> set syms' \<longrightarrow> macro' = macro"
      by (auto simp: constructor_list_def)
    with bound s show ?thesis by (simp add: getConstructorMacro_def)
  qed
  with info show "\<exists>info. interfaces idx className = Some info \<and>
            (\<forall>s \<in> set (constructors info).
               (\<forall>className' macro' info'. (className', macro') \<in> set post
                    \<and> interfaces idx className' = Some info' \<and> s \<in> set (constructors info')
                    \<longrightarrow> macro' = macro)
               \<longrightarrow> getConstructorMacro reg s = Some macro)"
    by blast
next
  fix i className members s
  assume a: "declared host program nodeModulesPath (InterfaceDeclaration i className members)
           \<and> ConstructSignatureDeclaration s \<in> set members"
  then have "recorded typeChecker idx (InterfaceDeclaration i className members)"
    using declared_recorded [OF assms(2)] by blast
  then obtain info where info: "interfaces idx className = Some info"
    and m: "\<forall>m \<in> set members. member_recorded typeChecker info m"
    by auto
  from m a have "member_recorded typeChecker info (ConstructSignatureDeclaration s)" by blast
  with info show "\<exists>info. interfaces idx className = Some info \<and> s \<in> set (constructors info)"
    by simp
qed

theorem constructor_macros_bound_witness:
  "getConstructorMacro (projr (new_MacroManager example_host vector_macros
       (example_program (fst merged_vector) (snd merged_vector)) example_checker ''node_modules'')) 21
     = Some 5
   \<and> getConstructorMacro (projr (new_MacroManager example_host vector_macros
       (example_program (fst merged_vector) (snd merged_vector)) example_checker ''node_modules'')) 22
     = Some 5"
proof -
  let ?new = "new_MacroManager example_host vector_macros
       (example_program (fst merged_vector) (snd merged_vector)) example_checker ''node_modules''"
  let ?idx = "empty_index\<lparr>interfaces :=
       [''Vector'' \<mapsto> \<lparr>symbols = [201, 202], constructors = [21, 22], methods = Map.empty\<rparr>]\<rparr>"
  from new_merged_vector have new: "?new = Inr (projr ?new)" by auto
  note t = constructor_macros_bound [OF new scan_merged_vector]
  have keys: "distinct (map fst (CONSTRUCTOR_MACROS vector_macros))
      \<and> unshared (constructor_list ?idx) (map fst (CONSTRUCTOR_MACROS vector_macros))"
    by (simp add: vector_macros_def no_macros_def unshared_def)
  have entry: "(''Vector'', 5) \<in> set (CONSTRUCTOR_MACROS vector_macros)"
    by (simp add: vector_macros_def no_macros_def)
  from t keys have "\<forall>className macro. (className, macro) \<in> set (CONSTRUCTOR_MACROS vector_macros) \<longrightarrow>
         (\<exists>info. interfaces ?idx className = Some info
            \<and> (\<forall>s \<in> set (constructors info). getConstructorMacro (projr ?new) s = Some macro))"
    by blast
  with entry obtain info where "interfaces ?idx ''Vector'' = Some info"
    and "\<forall>s \<in> set (constructors info). getConstructorMacro (projr ?new) s = Some 5"
    by blast
  then show ?thesis by auto
qed

section \<open>C5: the accessors\<close>

text \<open>
  C5. Each of the four accessors is a lookup that returns a payload or no macro and has
  no other outcome. On a constructed registry, it returns no macro exactly for the
  symbols that no entry of its table records, so for every symbol that was never bound;
  and a payload it returns is the payload of an entry of its table whose target records
  the symbol.
\<close>

theorem accessors_total:
  assumes "new_MacroManager host tables program typeChecker nodeModulesPath = Inr reg"
    and "scan host program typeChecker nodeModulesPath = Inr idx"
  shows
    "(case getIdentifierMacro reg s of
        None \<Rightarrow> \<not> (\<exists>name macro syms. (name, macro) \<in> set (IDENTIFIER_MACROS tables)
                      \<and> identifiers idx name = Some syms \<and> s \<in> set syms)
      | Some macro \<Rightarrow> (\<exists>name syms. (name, macro) \<in> set (IDENTIFIER_MACROS tables)
                      \<and> identifiers idx name = Some syms \<and> s \<in> set syms))
   \<and> (case getCallMacro reg s of
        None \<Rightarrow> \<not> (\<exists>name macro syms. (name, macro) \<in> set (CALL_MACROS tables)
                      \<and> functions idx name = Some syms \<and> s \<in> set syms)
      | Some macro \<Rightarrow> (\<exists>name syms. (name, macro) \<in> set (CALL_MACROS tables)
                      \<and> functions idx name = Some syms \<and> s \<in> set syms))
   \<and> (case getConstructorMacro reg s of
        None \<Rightarrow> \<not> (\<exists>name macro info. (name, macro) \<in> set (CONSTRUCTOR_MACROS tables)
                      \<and> interfaces idx name = Some info \<and> s \<in> set (constructors info))
      | Some macro \<Rightarrow> (\<exists>name info. (name, macro) \<in> set (CONSTRUCTOR_MACROS tables)
                      \<and> interfaces idx name = Some info \<and> s \<in> set (constructors info)))
   \<and> (case getPropertyCallMacro reg s of
        None \<Rightarrow> \<not> (\<exists>className methodMacros info methodName macro syms.
                      (className, methodMacros) \<in> set (PROPERTY_CALL_MACROS tables)
                      \<and> interfaces idx className = Some info
                      \<and> (methodName, macro) \<in> set methodMacros
                      \<and> methods info methodName = Some syms \<and> s \<in> set syms)
      | Some macro \<Rightarrow> (\<exists>className methodMacros info methodName syms.
                      (className, methodMacros) \<in> set (PROPERTY_CALL_MACROS tables)
                      \<and> interfaces idx className = Some info
                      \<and> (methodName, macro) \<in> set methodMacros
                      \<and> methods info methodName = Some syms \<and> s \<in> set syms))"
proof (intro conjI)
  note b = new_MacroManager_Inr(1) [OF assms, unfolded bind_identifiers_bind_all]
  show "case getIdentifierMacro reg s of
        None \<Rightarrow> \<not> (\<exists>name macro syms. (name, macro) \<in> set (IDENTIFIER_MACROS tables)
                      \<and> identifiers idx name = Some syms \<and> s \<in> set syms)
      | Some macro \<Rightarrow> (\<exists>name syms. (name, macro) \<in> set (IDENTIFIER_MACROS tables)
                      \<and> identifiers idx name = Some syms \<and> s \<in> set syms)"
  proof (cases "getIdentifierMacro reg s")
    case None
    then show ?thesis
      using bind_all_unbound_iff [OF b, of s] by (simp add: getIdentifierMacro_def)
  next
    case (Some macro)
    then show ?thesis
      using bind_all_value [OF b, of s macro] by (simp add: getIdentifierMacro_def)
  qed
next
  note b = new_MacroManager_Inr(2) [OF assms, unfolded bind_calls_bind_all]
  show "case getCallMacro reg s of
        None \<Rightarrow> \<not> (\<exists>name macro syms. (name, macro) \<in> set (CALL_MACROS tables)
                      \<and> functions idx name = Some syms \<and> s \<in> set syms)
      | Some macro \<Rightarrow> (\<exists>name syms. (name, macro) \<in> set (CALL_MACROS tables)
                      \<and> functions idx name = Some syms \<and> s \<in> set syms)"
  proof (cases "getCallMacro reg s")
    case None
    then show ?thesis
      using bind_all_unbound_iff [OF b, of s] by (simp add: getCallMacro_def)
  next
    case (Some macro)
    then show ?thesis
      using bind_all_value [OF b, of s macro] by (simp add: getCallMacro_def)
  qed
next
  note b = new_MacroManager_Inr(3) [OF assms, unfolded bind_constructors_bind_all]
  show "case getConstructorMacro reg s of
        None \<Rightarrow> \<not> (\<exists>name macro info. (name, macro) \<in> set (CONSTRUCTOR_MACROS tables)
                      \<and> interfaces idx name = Some info \<and> s \<in> set (constructors info))
      | Some macro \<Rightarrow> (\<exists>name info. (name, macro) \<in> set (CONSTRUCTOR_MACROS tables)
                      \<and> interfaces idx name = Some info \<and> s \<in> set (constructors info))"
  proof (cases "getConstructorMacro reg s")
    case None
    then show ?thesis
      using bind_all_unbound_iff [OF b, of s] by (auto simp: getConstructorMacro_def)
  next
    case (Some macro)
    then show ?thesis
      using bind_all_value [OF b, of s macro] by (auto simp: getConstructorMacro_def)
  qed
next
  note b = new_MacroManager_Inr(4) [OF assms]
  show "case getPropertyCallMacro reg s of
        None \<Rightarrow> \<not> (\<exists>className methodMacros info methodName macro syms.
                      (className, methodMacros) \<in> set (PROPERTY_CALL_MACROS tables)
                      \<and> interfaces idx className = Some info
                      \<and> (methodName, macro) \<in> set methodMacros
                      \<and> methods info methodName = Some syms \<and> s \<in> set syms)
      | Some macro \<Rightarrow> (\<exists>className methodMacros info methodName syms.
                      (className, methodMacros) \<in> set (PROPERTY_CALL_MACROS tables)
                      \<and> interfaces idx className = Some info
                      \<and> (methodName, macro) \<in> set methodMacros
                      \<and> methods info methodName = Some syms \<and> s \<in> set syms)"
  proof (cases "getPropertyCallMacro reg s")
    case None
    then show ?thesis
      using bind_property_calls_unbound_iff [OF b, of s] by (simp add: getPropertyCallMacro_def)
  next
    case (Some macro)
    then show ?thesis
      using bind_property_calls_value [OF b, of s macro] by (simp add: getPropertyCallMacro_def)
  qed
qed

theorem accessors_total_witness:
  "getIdentifierMacro (projr (new_MacroManager example_host overloads_macros (example_program overloads [])
       example_checker ''node_modules'')) 101 = None
   \<and> getCallMacro (projr (new_MacroManager example_host overloads_macros (example_program overloads [])
       example_checker ''node_modules'')) 999 = None
   \<and> getCallMacro (projr (new_MacroManager example_host overloads_macros (example_program overloads [])
       example_checker ''node_modules'')) 101 \<noteq> None"
proof -
  let ?new = "new_MacroManager example_host overloads_macros (example_program overloads [])
       example_checker ''node_modules''"
  let ?idx = "empty_index\<lparr>functions := [''f'' \<mapsto> [101, 102]]\<rparr>"
  from new_overloads have new: "?new = Inr (projr ?new)" by auto
  note t = accessors_total [OF new scan_overloads]
  have 1: "\<not> (\<exists>name macro syms. (name, macro) \<in> set (IDENTIFIER_MACROS overloads_macros)
                      \<and> identifiers ?idx name = Some syms \<and> (101::nat) \<in> set syms)"
    by (simp add: overloads_macros_def no_macros_def)
  have 2: "\<not> (\<exists>name macro syms. (name, macro) \<in> set (CALL_MACROS overloads_macros)
                      \<and> functions ?idx name = Some syms \<and> (999::nat) \<in> set syms)"
    by (simp add: overloads_macros_def no_macros_def)
  have 3: "\<exists>name macro syms. (name, macro) \<in> set (CALL_MACROS overloads_macros)
                      \<and> functions ?idx name = Some syms \<and> (101::nat) \<in> set syms"
    by (simp add: overloads_macros_def no_macros_def)
  from t [of 101] 1 have "getIdentifierMacro (projr ?new) 101 = None"
    by (cases "getIdentifierMacro (projr ?new) 101") auto
  moreover from t [of 999] 2 have "getCallMacro (projr ?new) 999 = None"
    by (cases "getCallMacro (projr ?new) 999") auto
  moreover from t [of 101] 3 have "getCallMacro (projr ?new) 101 \<noteq> None"
    by (cases "getCallMacro (projr ?new) 101") auto
  ultimately show ?thesis by simp
qed

section \<open>C6: the symbol recorded for a function declaration\<close>

text \<open>
  C6. Scanning a function declaration with a name succeeds and appends, to the list of
  that name in the function Name Index, the symbol of the type that the checker resolves
  for the statement; the other lists and the other two indices are unchanged. The
  declaration symbol \<open>s\<close> of the statement itself is not what is appended: in the
  witness the statement's own symbol is \<open>50\<close> and the list recorded is \<open>[101]\<close>.
\<close>

theorem function_symbol_from_type:
  "\<exists>idx'. scan_statement typeChecker idx (FunctionDeclaration i (Some name) s) = Inr idx'
     \<and> functions idx' name =
         Some ((case functions idx name of None \<Rightarrow> [] | Some syms \<Rightarrow> syms)
               @ [type_symbol (typeChecker (StatementNode (FunctionDeclaration i (Some name) s)))])
     \<and> (\<forall>other. other \<noteq> name \<longrightarrow> functions idx' other = functions idx other)
     \<and> identifiers idx' = identifiers idx \<and> interfaces idx' = interfaces idx"
  by (simp add: push_symbol_same push_symbol_other)

theorem function_symbol_from_type_witness:
  "\<exists>idx'. scan_statement example_checker empty_index (FunctionDeclaration 1 (Some ''f'') 50) = Inr idx'
     \<and> functions idx' ''f'' = Some [101] \<and> functions idx' ''g'' = None \<and> 50 \<notin> set [101 :: nat]"
proof -
  from function_symbol_from_type [of example_checker empty_index 1 "''f''" 50]
  obtain idx' where "scan_statement example_checker empty_index (FunctionDeclaration 1 (Some ''f'') 50) = Inr idx'"
    and "functions idx' ''f'' = Some ((case functions empty_index ''f'' of None \<Rightarrow> [] | Some syms \<Rightarrow> syms)
               @ [type_symbol (example_checker (StatementNode (FunctionDeclaration 1 (Some ''f'') 50)))])"
    and "\<forall>other. other \<noteq> ''f'' \<longrightarrow> functions idx' other = functions empty_index other"
    by blast
  then show ?thesis by (simp add: empty_index_def)
qed

section \<open>C7: binding one method binds no other\<close>

text \<open>
  C7. After a successful construction a symbol that is in no method list named by the
  property-call-macro table has no property-call macro. When the table is a single
  interface with a single method, the symbols with a macro are exactly those of that
  method's list, each with the payload of the entry: the symbol of another method of the
  interface, not being in that list, gets no macro. The witness is the scenario of
  \<open>Array\<close> declared with \<open>push\<close> and, merged later, with \<open>pop\<close>, and a macro for \<open>push\<close>
  only: the symbol of \<open>push\<close> has the macro and the symbol of \<open>pop\<close> has none.
\<close>

theorem lone_property_call_macro:
  assumes "new_MacroManager host tables program typeChecker nodeModulesPath = Inr reg"
    and "scan host program typeChecker nodeModulesPath = Inr idx"
  shows
    "(\<forall>s. (\<forall>className methodMacros info methodName macro syms.
              (className, methodMacros) \<in> set (PROPERTY_CALL_MACROS tables)
              \<and> interfaces idx className = Some info
              \<and> (methodName, macro) \<in> set methodMacros \<and> methods info methodName = Some syms
              \<longrightarrow> s \<notin> set syms)
          \<longrightarrow> getPropertyCallMacro reg s = None)
   \<and> (\<forall>className methodName macro.
         PROPERTY_CALL_MACROS tables = [(className, [(methodName, macro)])] \<longrightarrow>
         (\<exists>info syms. interfaces idx className = Some info \<and> methods info methodName = Some syms
            \<and> (\<forall>s. getPropertyCallMacro reg s = (if s \<in> set syms then Some macro else None))))"
proof (intro conjI allI impI)
  note b = new_MacroManager_Inr(4) [OF assms]
  fix s
  assume "\<forall>className methodMacros info methodName macro syms.
              (className, methodMacros) \<in> set (PROPERTY_CALL_MACROS tables)
              \<and> interfaces idx className = Some info
              \<and> (methodName, macro) \<in> set methodMacros \<and> methods info methodName = Some syms
              \<longrightarrow> s \<notin> set syms"
  then show "getPropertyCallMacro reg s = None"
    using bind_property_calls_unbound_iff [OF b, of s] by (auto simp: getPropertyCallMacro_def)
next
  note b = new_MacroManager_Inr(4) [OF assms]
  fix className methodName macro
  assume lone: "PROPERTY_CALL_MACROS tables = [(className, [(methodName, macro)])]"
  from bind_property_calls_table [OF b, of className "[(methodName, macro)]" methodName macro] lone
  obtain info syms where info: "interfaces idx className = Some info"
    and syms: "methods info methodName = Some syms"
    and bound: "\<forall>s \<in> set syms.
              (\<forall>className' methodMacros' info' methodName' macro' syms'.
                 (className', methodMacros') \<in> set (PROPERTY_CALL_MACROS tables)
                 \<and> interfaces idx className' = Some info'
                 \<and> (methodName', macro') \<in> set methodMacros' \<and> methods info' methodName' = Some syms'
                 \<and> s \<in> set syms' \<longrightarrow> macro' = macro)
              \<longrightarrow> propertyCallMacros reg s = Some macro"
    by auto
  have "getPropertyCallMacro reg s = (if s \<in> set syms then Some macro else None)" for s
  proof (cases "s \<in> set syms")
    case True
    with bound lone show ?thesis by (auto simp: getPropertyCallMacro_def)
  next
    case False
    with info syms lone show ?thesis
      using bind_property_calls_unbound_iff [OF b, of s] by (auto simp: getPropertyCallMacro_def)
  qed
  with info syms
  show "\<exists>info syms. interfaces idx className = Some info \<and> methods info methodName = Some syms
            \<and> (\<forall>s. getPropertyCallMacro reg s = (if s \<in> set syms then Some macro else None))"
    by blast
qed

theorem lone_property_call_macro_witness:
  "getPropertyCallMacro (projr (new_MacroManager example_host push_macros
       (example_program (fst push_pop) (snd push_pop)) example_checker ''node_modules'')) 311
     = Some 1
   \<and> getPropertyCallMacro (projr (new_MacroManager example_host push_macros
       (example_program (fst push_pop) (snd push_pop)) example_checker ''node_modules'')) 312
     = None"
proof -
  let ?new = "new_MacroManager example_host push_macros
       (example_program (fst push_pop) (snd push_pop)) example_checker ''node_modules''"
  let ?idx = "empty_index\<lparr>interfaces :=
       [''Array'' \<mapsto> \<lparr>symbols = [201, 202], constructors = [],
          methods = [''push'' \<mapsto> [311], ''pop'' \<mapsto> [312]]\<rparr>]\<rparr>"
  from new_push_pop have new: "?new = Inr (projr ?new)" by auto
  note t = lone_property_call_macro [OF new scan_push_pop]
  have lone: "PROPERTY_CALL_MACROS push_macros = [(''Array'', [(''push'', 1)])]"
    by (simp add: push_macros_def no_macros_def)
  from t lone obtain info syms where info: "interfaces ?idx ''Array'' = Some info"
    and syms: "methods info ''push'' = Some syms"
    and exact: "\<forall>s. getPropertyCallMacro (projr ?new) s = (if s \<in> set syms then Some 1 else None)"
    by blast
  from info syms have "syms = [311]" by auto
  with exact show ?thesis by simp
qed

section \<open>C8: the declaration shapes the scanner reads\<close>

text \<open>
  C8. Variable bindings whose name is not a simple identifier, method signatures whose
  name is not a simple identifier, and top-level statements that are neither a variable
  statement nor a function declaration nor an interface declaration contribute nothing:
  the scanner returns the same result with them removed. A variable statement of such
  bindings only, a member list of such method signatures only, and a statement of
  another kind leave the Name Index, or the interface entry, as it was.
\<close>

theorem scanner_skips_other_shapes:
  "scan_declarations ids declarations =
     scan_declarations ids (filter (\<lambda>d. declaration_name d \<noteq> NonIdentifierName) declarations)
   \<and> scan_members typeChecker info members =
     scan_members typeChecker info
       (filter (\<lambda>m. case m of MethodSignature j NonIdentifierName \<Rightarrow> False | _ \<Rightarrow> True) members)
   \<and> scan_statements typeChecker idx stmts =
     scan_statements typeChecker idx (filter (\<lambda>st. st \<noteq> OtherStatement) stmts)
   \<and> ((\<forall>d \<in> set declarations. declaration_name d = NonIdentifierName) \<longrightarrow>
        scan_statement typeChecker idx (VariableStatement declarations) = Inr idx)
   \<and> ((\<forall>m \<in> set members. \<exists>j. m = MethodSignature j NonIdentifierName) \<longrightarrow>
        scan_members typeChecker info members = info)
   \<and> scan_statement typeChecker idx OtherStatement = Inr idx"
proof (intro conjI impI)
  show "scan_declarations ids declarations =
     scan_declarations ids (filter (\<lambda>d. declaration_name d \<noteq> NonIdentifierName) declarations)"
    by (rule scan_declarations_filter)
  show "scan_members typeChecker info members =
     scan_members typeChecker info
       (filter (\<lambda>m. case m of MethodSignature j NonIdentifierName \<Rightarrow> False | _ \<Rightarrow> True) members)"
    by (rule scan_members_filter)
  show "scan_statements typeChecker idx stmts =
     scan_statements typeChecker idx (filter (\<lambda>st. st \<noteq> OtherStatement) stmts)"
    by (rule scan_statements_filter)
  show "scan_statement typeChecker idx OtherStatement = Inr idx" by simp
next
  assume a: "\<forall>d \<in> set declarations. declaration_name d = NonIdentifierName"
  then have "filter (\<lambda>d. declaration_name d \<noteq> NonIdentifierName) declarations = []"
    by (simp add: filter_empty_conv)
  then have "scan_declarations (identifiers idx) declarations = identifiers idx"
    using scan_declarations_filter [of "identifiers idx" declarations] by simp
  then show "scan_statement typeChecker idx (VariableStatement declarations) = Inr idx"
    by simp
next
  assume a: "\<forall>m \<in> set members. \<exists>j. m = MethodSignature j NonIdentifierName"
  then have "filter (\<lambda>m. case m of MethodSignature j NonIdentifierName \<Rightarrow> False | _ \<Rightarrow> True) members = []"
    by (auto simp: filter_empty_conv)
  then show "scan_members typeChecker info members = info"
    using scan_members_filter [of typeChecker info members] by simp
qed

theorem scanner_skips_other_shapes_witness:
  "scan_statement example_checker empty_index
     (VariableStatement [VariableDeclaration NonIdentifierName 3]) = Inr empty_index
   \<and> scan_members example_checker new_InterfaceInfo [MethodSignature 4 NonIdentifierName]
       = new_InterfaceInfo"
proof -
  have 1: "\<forall>d \<in> set [VariableDeclaration NonIdentifierName 3]. declaration_name d = NonIdentifierName"
    by simp
  have 2: "\<forall>m \<in> set [MethodSignature 4 NonIdentifierName]. \<exists>j. m = MethodSignature j NonIdentifierName"
    by simp
  from scanner_skips_other_shapes [of _ "[VariableDeclaration NonIdentifierName 3]" example_checker
      new_InterfaceInfo "[MethodSignature 4 NonIdentifierName]" empty_index] 1 2
  show ?thesis by blast
qed

section \<open>C9: a function declaration without a name\<close>

text \<open>
  C9. The traversal of a list of statements returns a Name Index when every function
  declaration in it has a name, and otherwise throws the \<open>TypeError\<close> of reading \<open>.text\<close>
  from the absent name. So with loadable declaration files the scan succeeds when no
  declared function declaration lacks a name, and construction throws \<open>TypeError\<close> when
  one does; \<open>TypeError\<close> is not a \<open>ProjectError\<close>, whatever the message.
\<close>

theorem unnamed_function_declaration:
  "(FunctionDeclaration i None s \<in> set stmts \<longrightarrow>
      scan_statements typeChecker idx stmts = Inl TypeError)
   \<and> ((\<forall>i s. FunctionDeclaration i None s \<notin> set stmts) \<longrightarrow>
        (\<exists>idx'. scan_statements typeChecker idx stmts = Inr idx'))
   \<and> (loadable host program nodeModulesPath
        \<and> declared host program nodeModulesPath (FunctionDeclaration i None s) \<longrightarrow>
      new_MacroManager host tables program typeChecker nodeModulesPath = Inl TypeError)
   \<and> (loadable host program nodeModulesPath
        \<and> (\<forall>i s. \<not> declared host program nodeModulesPath (FunctionDeclaration i None s)) \<longrightarrow>
      (\<exists>idx'. scan host program typeChecker nodeModulesPath = Inr idx'))
   \<and> (\<forall>message. TypeError \<noteq> ProjectError message)"
proof (intro conjI impI allI)
  assume "FunctionDeclaration i None s \<in> set stmts"
  then show "scan_statements typeChecker idx stmts = Inl TypeError"
    by (rule scan_statements_unnamed)
next
  assume "\<forall>i s. FunctionDeclaration i None s \<notin> set stmts"
  then show "\<exists>idx'. scan_statements typeChecker idx stmts = Inr idx'"
    by (intro scan_statements_named) simp
next
  let ?typesPath = "join host [nodeModulesPath, ''@rbxts'', ''types'', ''include'']"
  assume a: "loadable host program nodeModulesPath
        \<and> declared host program nodeModulesPath (FunctionDeclaration i None s)"
  then obtain f sf where f: "f \<in> set INCLUDE_FILES"
    and sf: "getSourceFileByPath program (join host [?typesPath, f]) = Some sf"
    and u: "FunctionDeclaration i None s \<in> set (statements sf)"
    unfolding declared_def by (auto split: option.splits)
  from a have "\<forall>f \<in> set INCLUDE_FILES. pathExistsSync host (join host [?typesPath, f])
             \<and> getSourceFileByPath program (join host [?typesPath, f]) \<noteq> None"
    unfolding loadable_def by simp
  then have "scan_files host program typeChecker ?typesPath empty_index INCLUDE_FILES = Inl TypeError"
    using f sf u by (rule scan_files_unnamed)
  then show "new_MacroManager host tables program typeChecker nodeModulesPath = Inl TypeError"
    by (simp add: new_MacroManager_def scan_def)
next
  let ?typesPath = "join host [nodeModulesPath, ''@rbxts'', ''types'', ''include'']"
  assume a: "loadable host program nodeModulesPath
        \<and> (\<forall>i s. \<not> declared host program nodeModulesPath (FunctionDeclaration i None s))"
  then have l: "\<forall>f \<in> set INCLUDE_FILES. pathExistsSync host (join host [?typesPath, f])
             \<and> getSourceFileByPath program (join host [?typesPath, f]) \<noteq> None"
    unfolding loadable_def by simp
  have "FunctionDeclaration i None s \<notin> set (statements sf)"
    if "f \<in> set INCLUDE_FILES" "getSourceFileByPath program (join host [?typesPath, f]) = Some sf"
    for f sf i s
  proof
    assume "FunctionDeclaration i None s \<in> set (statements sf)"
    with that have "declared host program nodeModulesPath (FunctionDeclaration i None s)"
      unfolding declared_def by force
    with a show False by simp
  qed
  with l have "\<exists>idx'. scan_files host program typeChecker ?typesPath empty_index INCLUDE_FILES = Inr idx'"
    by (rule scan_files_named)
  then show "\<exists>idx'. scan host program typeChecker nodeModulesPath = Inr idx'"
    by (simp add: scan_def)
next
  fix message
  show "TypeError \<noteq> ProjectError message" by simp
qed

theorem unnamed_function_declaration_witness:
  "new_MacroManager example_host no_macros (example_program unnamed_function []) example_checker
     ''node_modules'' = Inl TypeError
   \<and> (\<exists>idx'. scan_statements example_checker empty_index overloads = Inr idx')"
proof -
  have l: "loadable example_host (example_program unnamed_function []) ''node_modules''"
    by (simp add: loadable_def example_eval)
  have d: "declared example_host (example_program unnamed_function []) ''node_modules''
      (FunctionDeclaration 1 None 50)"
    by (simp add: declared_def example_eval unnamed_function_def)
  have n: "\<forall>i s. FunctionDeclaration i None s \<notin> set overloads"
    by (simp add: overloads_def)
  from unnamed_function_declaration [of 1 50 overloads example_checker empty_index example_host
      "example_program unnamed_function []" "''node_modules''" no_macros] l d n
  show ?thesis by blast
qed

section \<open>C10: which files are compiled\<close>

text \<open>
  C10. For every path, \<open>isCompilableFile\<close> returns true if and only if the path ends with
  \<open>.ts\<close> or \<open>.tsx\<close> and does not end with \<open>.d.ts\<close>; in particular a path ending with
  \<open>.d.ts\<close>, which also ends with \<open>.ts\<close>, is rejected.
\<close>

theorem isCompilableFile_iff:
  "(isCompilableFile fsPath \<longleftrightarrow>
      (suffix ''.ts'' fsPath \<or> suffix ''.tsx'' fsPath) \<and> \<not> suffix ''.d.ts'' fsPath)
   \<and> (suffix ''.d.ts'' fsPath \<longrightarrow> suffix ''.ts'' fsPath \<and> \<not> isCompilableFile fsPath)"
proof -
  have "suffix ''.ts'' fsPath" if "suffix ''.d.ts'' fsPath"
  proof -
    have "suffix ''.ts'' ''.d.ts''" by (simp add: suffix_def)
    then show ?thesis using that by (rule suffix_order.trans)
  qed
  then show ?thesis
    by (auto simp: isCompilableFile_def endsWith_suffix DTS_EXT_def TS_EXT_def TSX_EXT_def)
qed

theorem isCompilableFile_iff_witness:
  "suffix ''.d.ts'' ''a.d.ts'' \<and> suffix ''.ts'' ''a.d.ts'' \<and> \<not> isCompilableFile ''a.d.ts''
   \<and> isCompilableFile ''a.tsx'' \<and> isCompilableFile ''a.ts''"
proof -
  have h: "suffix ''.d.ts'' ''a.d.ts''" by (simp add: suffix_def)
  have 1: "suffix ''.tsx'' ''a.tsx''" by (simp add: suffix_def)
  have 2: "suffix ''.ts'' ''a.ts''" by (simp add: suffix_def)
  have 3: "\<not> suffix ''.d.ts'' ''a.tsx''" by (simp add: suffix_def append_eq_Cons_conv)
  have 4: "\<not> suffix ''.d.ts'' ''a.ts''" by (auto simp add: suffix_def append_eq_Cons_conv)
  show ?thesis
    using isCompilableFile_iff [of "''a.d.ts''"] isCompilableFile_iff [of "''a.tsx''"]
      isCompilableFile_iff [of "''a.ts''"] h 1 2 3 4
    by blast
qed

end
